theory Spec2Isabelle
  imports Main "HOL-Library.Sublist"
begin

section \<open>Paths and strings\<close>

text \<open>
  The tool runs on Node.js and handles paths through the \<^verbatim>\<open>path\<close> module (POSIX flavour).
  Every path the traversal handles is absolute and normalised: \<^verbatim>\<open>main\<close> resolves the scan
  directory and joins the output name onto the working directory, and the loop joins a
  directory path with the name of one of its entries. Such a path is modelled as the list
  of its components below \<^verbatim>\<open>/\<close>; the strings the program matches on and prints are computed
  from it.
\<close>

type_synonym path = "string list"

text \<open>\<^verbatim>\<open>String.prototype.includes\<close>: does \<open>s\<close> contain \<open>pat\<close> at some position.\<close>

fun str_includes :: "string \<Rightarrow> string \<Rightarrow> bool" where
  "str_includes [] pat = (pat = [])"
| "str_includes (c # cs) pat = (take (length pat) (c # cs) = pat \<or> str_includes cs pat)"

text \<open>Splitting a path string at its separators.\<close>

fun split_sep :: "string \<Rightarrow> string list" where
  "split_sep [] = [[]]"
| "split_sep (c # cs) =
     (if c = CHR ''/'' then [] # split_sep cs
      else (case split_sep cs of [] \<Rightarrow> [[c]] | x # xs \<Rightarrow> (c # x) # xs))"

text \<open>
  One step of the normalisation that \<^verbatim>\<open>path.resolve\<close> and \<^verbatim>\<open>path.join\<close> perform on an
  absolute path: empty components and \<^verbatim>\<open>.\<close> are dropped, \<^verbatim>\<open>..\<close> removes the last
  component (and does nothing at the root).
\<close>

definition norm_step :: "path \<Rightarrow> string \<Rightarrow> path" where
  "norm_step acc s =
     (if s = [] \<or> s = ''.'' then acc
      else if s = ''..'' then butlast acc
      else acc @ [s])"

text \<open>\<^verbatim>\<open>path.resolve(s)\<close> in a process whose working directory is \<open>wd\<close>.\<close>

definition path_resolve :: "path \<Rightarrow> string \<Rightarrow> path" where
  "path_resolve wd s =
     foldl norm_step (if take 1 s = ''/'' then [] else wd) (split_sep s)"

text \<open>
  \<^verbatim>\<open>path.join(dir, s)\<close> for an absolute, normalised \<open>dir\<close>: the two are concatenated with a
  separator and normalised, so \<open>s\<close> is never taken as absolute.
\<close>

definition path_join :: "path \<Rightarrow> string \<Rightarrow> path" where
  "path_join dir s = foldl norm_step dir (split_sep s)"

text \<open>The string of an absolute path.\<close>

definition path_string :: "path \<Rightarrow> string" where
  "path_string p = (if p = [] then ''/'' else concat (map (\<lambda>s. CHR ''/'' # s) p))"

fun join_sep :: "string list \<Rightarrow> string" where
  "join_sep [] = []"
| "join_sep [x] = x"
| "join_sep (x # y # ys) = x @ ''/'' @ join_sep (y # ys)"

fun strip_common :: "path \<Rightarrow> path \<Rightarrow> path \<times> path" where
  "strip_common (a # as) (b # bs) =
     (if a = b then strip_common as bs else (a # as, b # bs))"
| "strip_common as bs = (as, bs)"

text \<open>
  \<^verbatim>\<open>path.relative(from, to)\<close> for absolute, normalised paths: the common leading components
  are dropped, each remaining component of \<open>from\<close> becomes \<^verbatim>\<open>..\<close>, the remaining components
  of \<open>to\<close> follow. Equal paths give the empty string.
\<close>

definition relative :: "path \<Rightarrow> path \<Rightarrow> string" where
  "relative from to =
     (case strip_common from to of
        (f, t) \<Rightarrow> join_sep (replicate (length f) ''..'' @ t))"

text \<open>\<^verbatim>\<open>path.basename\<close>: the last component; empty for the root.\<close>

definition basename :: "path \<Rightarrow> string" where
  "basename p = (if p = [] then [] else last p)"

text \<open>
  \<^verbatim>\<open>path.extname\<close> on an entry name (one component, no separator): the text from the last
  dot on, and the empty string when there is no dot, when the only dot is the first
  character, and for the name \<^verbatim>\<open>..\<close>.
\<close>

definition extname :: "string \<Rightarrow> string" where
  "extname name =
     (if CHR ''.'' \<notin> set name then []
      else let ext = CHR ''.'' # rev (takeWhile (\<lambda>c. c \<noteq> CHR ''.'') (rev name))
           in if length ext = length name \<or> name = ''..'' then [] else ext)"


section \<open>Configuration, file system and program state\<close>

text \<open>
  The resolved options (lines 53 to 60 of \<^verbatim>\<open>vomitorium.js\<close>), read by every function as
  module-level constants.
\<close>

record config =
  scanDir :: string
  includeDirs :: "string list"
  excludePatterns :: "string list"
  includeExtensions :: "string list"
  showExcluded :: bool
  showSkipped :: bool
  outputFile :: string

text \<open>
  What the traversal finds on disk. A directory entry is a name with a node; the node says
  what \<^verbatim>\<open>Dirent.isDirectory()\<close> answers and what reading it gives. \<open>File None\<close> is an entry
  that is not a directory and cannot be read (this includes a symbolic link to a
  directory); \<open>Dir None\<close> is a directory whose listing fails. Listings are lists: the order
  is the one \<^verbatim>\<open>fs.readdir\<close> returns.
\<close>

datatype node = File "string option" | Dir "(string \<times> node) list option"

datatype io_error = ReaddirFailed | ReadFailed | WriteFailed

text \<open>
  The environment of one run: the working directory of the process, what \<^verbatim>\<open>fs.access\<close>
  finds at an absolute path (\<open>None\<close>: missing or inaccessible), and which write attempts
  succeed, by their position in the run (\<^verbatim>\<open>fs.writeFile\<close> and \<^verbatim>\<open>fs.appendFile\<close> calls,
  counted from 0). The tree found at the scan root is the one the walk sees: when the
  output file lies in the scanned directory it is one of its entries, since it is created
  before the walk starts.
\<close>

record env =
  cwd :: path
  lookup :: "path \<Rightarrow> node option"
  write_ok :: "nat \<Rightarrow> bool"

text \<open>
  The records of the output artifact: the file a record is about and, for a processed file,
  its content, for a placeholder, the reason text.
\<close>

datatype out_record = Processed path string | Placeholder path string

fun record_path :: "out_record \<Rightarrow> path" where
  "record_path (Processed p c) = p"
| "record_path (Placeholder p r) = p"

text \<open>
  The history of a run, kept so that the statements can speak of what the program did and
  in which order; the program itself never looks at it. \<open>Visit p d\<close>: the loop of
  \<^verbatim>\<open>traverseDirectory\<close> takes the entry at \<open>p\<close>, a directory or not; \<open>Listed p\<close>:
  \<^verbatim>\<open>fs.readdir\<close> is called on \<open>p\<close>; \<open>Read p c\<close>: \<^verbatim>\<open>fs.readFile\<close> is called on \<open>p\<close> and
  returns the content \<open>c\<close> (\<open>None\<close>: it fails); \<open>Written p s\<close> and \<open>Appended p r s\<close>: a
  successful \<^verbatim>\<open>fs.writeFile\<close> and \<^verbatim>\<open>fs.appendFile\<close> of the text \<open>s\<close> to \<open>p\<close>, the latter
  for the record \<open>r\<close>; \<open>AppendFailed p r\<close>: the \<^verbatim>\<open>fs.appendFile\<close> to \<open>p\<close> for the record \<open>r\<close>
  fails; \<open>Stdout\<close> and \<open>Stderr\<close>: a line of \<^verbatim>\<open>console.log\<close> and of \<^verbatim>\<open>console.error\<close> (with
  the error object printed after the message, if any).
\<close>

datatype event =
    Visit path bool
  | Listed path
  | Read path "string option"
  | Written path string
  | Appended path out_record string
  | AppendFailed path out_record
  | Stdout string
  | Stderr string "io_error option"

text \<open>
  The state: the content of the files the program writes, by path (\<open>None\<close>: the file does
  not exist or was not written; at the start, what an earlier run left), the number of
  write attempts so far, and the history. Where the program has written a file, a read of
  that path gives this content and not the one of the tree.
\<close>

record state =
  files :: "path \<Rightarrow> string option"
  attempts :: nat
  trace :: "event list"

definition init_state :: "(path \<Rightarrow> string option) \<Rightarrow> state" where
  "init_state fs = \<lparr>files = fs, attempts = 0, trace = []\<rparr>"

definition emit :: "event \<Rightarrow> state \<Rightarrow> state" where
  "emit e st = st\<lparr>trace := trace st @ [e]\<rparr>"

definition console_log :: "string \<Rightarrow> state \<Rightarrow> state" where
  "console_log msg st = emit (Stdout msg) st"

definition console_error :: "string \<Rightarrow> io_error option \<Rightarrow> state \<Rightarrow> state" where
  "console_error msg err st = emit (Stderr msg err) st"


section \<open>File-system primitives\<close>

text \<open>\<^verbatim>\<open>fs.readdir(dirPath, { withFileTypes: true })\<close>: fails on anything but a listable directory.\<close>

definition fs_readdir :: "path \<Rightarrow> node \<Rightarrow> state \<Rightarrow> (io_error + (string \<times> node) list) \<times> state" where
  "fs_readdir p nd st =
     (case nd of
        Dir (Some entries) \<Rightarrow> (Inr entries, emit (Listed p) st)
      | _ \<Rightarrow> (Inl ReaddirFailed, emit (Listed p) st))"

text \<open>
  \<^verbatim>\<open>fs.readFile(filePath, 'utf-8')\<close>: a file the program has written itself (the output file,
  when it lies in the scanned tree) is read as it is at that moment.
\<close>

definition fs_readFile :: "path \<Rightarrow> node \<Rightarrow> state \<Rightarrow> (io_error + string) \<times> state" where
  "fs_readFile p nd st =
     (case nd of
        File (Some c) \<Rightarrow>
          (let content = (case files st p of Some c' \<Rightarrow> c' | None \<Rightarrow> c)
           in (Inr content, emit (Read p (Some content)) st))
      | _ \<Rightarrow> (Inl ReadFailed, emit (Read p None) st))"

text \<open>\<^verbatim>\<open>fs.writeFile(p, data)\<close>: creates or replaces the file.\<close>

definition fs_writeFile :: "env \<Rightarrow> path \<Rightarrow> string \<Rightarrow> state \<Rightarrow> io_error option \<times> state" where
  "fs_writeFile ev p data st =
     (if write_ok ev (attempts st)
      then (None, emit (Written p data)
                    (st\<lparr>files := (files st)(p \<mapsto> data), attempts := Suc (attempts st)\<rparr>))
      else (Some WriteFailed, st\<lparr>attempts := Suc (attempts st)\<rparr>))"

text \<open>
  \<^verbatim>\<open>fs.appendFile(p, data)\<close>: creates the file if it is missing. The record \<open>r\<close> for
  which the caller appends goes into the history entry only.
\<close>

definition fs_appendFile ::
  "env \<Rightarrow> path \<Rightarrow> string \<Rightarrow> out_record \<Rightarrow> state \<Rightarrow> io_error option \<times> state" where
  "fs_appendFile ev p data r st =
     (if write_ok ev (attempts st)
      then (None, emit (Appended p r data)
                    (st\<lparr>files := (files st)(p \<mapsto> (case files st p of None \<Rightarrow> data | Some old \<Rightarrow> old @ data)),
                        attempts := Suc (attempts st)\<rparr>))
      else (Some WriteFailed, emit (AppendFailed p r) (st\<lparr>attempts := Suc (attempts st)\<rparr>)))"


section \<open>The program\<close>

text \<open>\<^verbatim>\<open>isExcluded\<close>, lines 69 to 80.\<close>

definition isExcluded :: "config \<Rightarrow> env \<Rightarrow> path \<Rightarrow> bool" where
  "isExcluded cfg ev filePath =
     (let relativePath = relative (cwd ev) filePath
      in list_ex (\<lambda>pattern.
            let test1 = str_includes relativePath pattern;
                test2 = (basename filePath = pattern)
            in if test1 \<or> test2 then True else False)
          (excludePatterns cfg))"

text \<open>The test of line 103, on the string of the full path.\<close>

definition shouldRecurse :: "config \<Rightarrow> path \<Rightarrow> bool" where
  "shouldRecurse cfg fullPath =
     (length (includeDirs cfg) = 0
      \<or> list_ex (\<lambda>d. str_includes (path_string fullPath) d) (includeDirs cfg))"

text \<open>
  \<^verbatim>\<open>processFile\<close>, lines 130 to 140: both the read and the append are inside its
  \<^verbatim>\<open>try\<close>; whatever fails is printed and the function returns normally.
\<close>

definition processFile :: "env \<Rightarrow> path \<Rightarrow> path \<Rightarrow> node \<Rightarrow> state \<Rightarrow> state" where
  "processFile ev filePath outputFilePath nd st =
     (case fs_readFile filePath nd st of
        (Inl error, st1) \<Rightarrow>
          console_error (''Error processing file '' @ path_string filePath @ '':'') (Some error) st1
      | (Inr fileContent, st1) \<Rightarrow>
          (let relativePath = relative (cwd ev) filePath
           in case fs_appendFile ev outputFilePath
                     (''\<newline>\<newline>--- File: '' @ relativePath @ '' ---\<newline>\<newline>'' @ fileContent @ ''\<newline>'')
                     (Processed filePath fileContent) st1 of
                (Some error, st2) \<Rightarrow>
                  console_error (''Error processing file '' @ path_string filePath @ '':'') (Some error) st2
              | (None, st2) \<Rightarrow> console_log (''Processed file: '' @ relativePath) st2))"

text \<open>
  \<^verbatim>\<open>logSkippedFile\<close>, lines 149 to 153: no \<^verbatim>\<open>try\<close> here, a failed append is thrown to the
  caller (the first component of the result).
\<close>

definition logSkippedFile :: "env \<Rightarrow> path \<Rightarrow> path \<Rightarrow> string \<Rightarrow> state \<Rightarrow> io_error option \<times> state" where
  "logSkippedFile ev filePath outputFilePath reason st =
     (let relativePath = relative (cwd ev) filePath
      in case fs_appendFile ev outputFilePath
                (''\<newline>\<newline>--- File: '' @ relativePath @ '' ---\<newline>('' @ reason @ '')\<newline>'')
                (Placeholder filePath reason) st of
           (Some error, st1) \<Rightarrow> (Some error, st1)
         | (None, st1) \<Rightarrow>
             (None, console_log (''Skipped file: '' @ relativePath @ '' ('' @ reason @ '')'') st1))"

text \<open>
  \<^verbatim>\<open>traverseDirectory\<close>, lines 88 to 122. \<open>traverse_entries\<close> is the \<^verbatim>\<open>for\<close> loop over the
  listing; its first component is the exception that leaves the loop, if any.
  \<open>traverseDirectory\<close> is the \<^verbatim>\<open>try\<close>/\<^verbatim>\<open>catch\<close> around the listing and the loop. The names
  \<^verbatim>\<open>fs.readdir\<close> returns are single components, so \<^verbatim>\<open>path.join(dirPath, file.name)\<close> adds
  one component to \<open>dirPath\<close>.
\<close>

fun traverseDirectory :: "config \<Rightarrow> env \<Rightarrow> path \<Rightarrow> path \<Rightarrow> node \<Rightarrow> state \<Rightarrow> state"
  and traverse_entries ::
    "config \<Rightarrow> env \<Rightarrow> path \<Rightarrow> path \<Rightarrow> (string \<times> node) list \<Rightarrow> state \<Rightarrow> io_error option \<times> state"
where
  "traverseDirectory cfg ev dirPath outputFilePath (File c) st =
     (case fs_readdir dirPath (File c) st of
        (_, st1) \<Rightarrow>
          console_error (''Error traversing directory '' @ path_string dirPath @ '':'')
            (Some ReaddirFailed) st1)"
| "traverseDirectory cfg ev dirPath outputFilePath (Dir None) st =
     (case fs_readdir dirPath (Dir None) st of
        (_, st1) \<Rightarrow>
          console_error (''Error traversing directory '' @ path_string dirPath @ '':'')
            (Some ReaddirFailed) st1)"
| "traverseDirectory cfg ev dirPath outputFilePath (Dir (Some entries)) st =
     (case fs_readdir dirPath (Dir (Some entries)) st of
        (_, st1) \<Rightarrow>
          (case traverse_entries cfg ev dirPath outputFilePath entries st1 of
             (Some error, st2) \<Rightarrow>
               console_error (''Error traversing directory '' @ path_string dirPath @ '':'')
                 (Some error) st2
           | (None, st2) \<Rightarrow> st2))"
| "traverse_entries cfg ev dirPath outputFilePath [] st = (None, st)"
| "traverse_entries cfg ev dirPath outputFilePath ((name, File c) # rest) st =
     (let fullPath = dirPath @ [name];
          st0 = emit (Visit fullPath False) st
      in if isExcluded cfg ev fullPath then
           (if showExcluded cfg then
              (case logSkippedFile ev fullPath outputFilePath ''Excluded'' st0 of
                 (Some error, st1) \<Rightarrow> (Some error, st1)
               | (None, st1) \<Rightarrow> traverse_entries cfg ev dirPath outputFilePath rest st1)
            else traverse_entries cfg ev dirPath outputFilePath rest st0)
         else
           (let ext = extname name
            in if ext \<notin> set (includeExtensions cfg) then
                 (if showSkipped cfg then
                    (case logSkippedFile ev fullPath outputFilePath
                            ''Skipped (non-matching extension)'' st0 of
                       (Some error, st1) \<Rightarrow> (Some error, st1)
                     | (None, st1) \<Rightarrow> traverse_entries cfg ev dirPath outputFilePath rest st1)
                  else traverse_entries cfg ev dirPath outputFilePath rest st0)
               else traverse_entries cfg ev dirPath outputFilePath rest
                      (processFile ev fullPath outputFilePath (File c) st0)))"
| "traverse_entries cfg ev dirPath outputFilePath ((name, Dir l) # rest) st =
     (let fullPath = dirPath @ [name];
          st0 = emit (Visit fullPath True) st
      in if isExcluded cfg ev fullPath then
           (if showExcluded cfg then
              (case logSkippedFile ev fullPath outputFilePath ''Excluded'' st0 of
                 (Some error, st1) \<Rightarrow> (Some error, st1)
               | (None, st1) \<Rightarrow> traverse_entries cfg ev dirPath outputFilePath rest st1)
            else traverse_entries cfg ev dirPath outputFilePath rest st0)
         else
           (if shouldRecurse cfg fullPath
            then traverse_entries cfg ev dirPath outputFilePath rest
                   (traverseDirectory cfg ev fullPath outputFilePath (Dir l) st0)
            else traverse_entries cfg ev dirPath outputFilePath rest st0))"

text \<open>
  \<^verbatim>\<open>main\<close>, lines 159 to 178, with the exit status of the process. A failed access check
  ends the process with status 1 at once. A failed \<^verbatim>\<open>fs.writeFile\<close> rejects \<^verbatim>\<open>main()\<close>;
  the rejection is printed by \<^verbatim>\<open>.catch(console.error)\<close> and the process ends normally.
\<close>

definition main :: "config \<Rightarrow> env \<Rightarrow> state \<Rightarrow> nat \<times> state" where
  "main cfg ev st =
     (let targetDir = path_resolve (cwd ev) (scanDir cfg);
          outputFilePath = path_join (cwd ev) (outputFile cfg)
      in case lookup ev targetDir of
           None \<Rightarrow>
             (1, console_error
                   (''Error: Directory '' @ [CHR 0x22] @ path_string targetDir @ [CHR 0x22]
                      @ '' does not exist or is inaccessible.'') None st)
         | Some nd \<Rightarrow>
             (case fs_writeFile ev outputFilePath [] st of
                (Some error, st1) \<Rightarrow> (0, console_error [] (Some error) st1)
              | (None, st1) \<Rightarrow>
                  (let st2 = console_log (''Traversing directory: '' @ path_string targetDir) st1;
                       st3 = traverseDirectory cfg ev targetDir outputFilePath nd st2;
                       st4 = console_log
                               (''Done. All file contents written to: '' @ path_string outputFilePath) st3
                   in (0, st4))))"

text \<open>A run of the program on files \<open>fs\<close>, from an empty history.\<close>

definition run :: "config \<Rightarrow> env \<Rightarrow> (path \<Rightarrow> string option) \<Rightarrow> nat \<times> state" where
  "run cfg ev fs = main cfg ev (init_state fs)"


section \<open>Record formats and notions used in the statements\<close>

text \<open>
  The two record formats of the output artifact as the specification gives them, with the
  path printed relative to the working directory \<open>wd\<close>.
\<close>

fun record_text :: "path \<Rightarrow> out_record \<Rightarrow> string" where
  "record_text wd (Processed p content) =
     ''\<newline>\<newline>--- File: '' @ relative wd p @ '' ---\<newline>\<newline>'' @ content @ ''\<newline>''"
| "record_text wd (Placeholder p reasonText) =
     ''\<newline>\<newline>--- File: '' @ relative wd p @ '' ---\<newline>('' @ reasonText @ '')\<newline>''"

text \<open>The texts appended to file \<open>p\<close> in a history, in order.\<close>

fun appended_to :: "path \<Rightarrow> event list \<Rightarrow> string list" where
  "appended_to p [] = []"
| "appended_to p (Appended q r s # es) = (if q = p then s # appended_to p es else appended_to p es)"
| "appended_to p (e # es) = appended_to p es"

text \<open>The file a history entry writes to, if it is a write.\<close>

fun write_target :: "event \<Rightarrow> path option" where
  "write_target (Written p s) = Some p"
| "write_target (Appended p r s) = Some p"
| "write_target e = None"

text \<open>
  \<open>grows P st st'\<close>: the history of \<open>st'\<close> is the history of \<open>st\<close> followed by entries that
  all satisfy \<open>P\<close>.
\<close>

definition grows :: "(event \<Rightarrow> bool) \<Rightarrow> state \<Rightarrow> state \<Rightarrow> bool" where
  "grows P st st' \<longleftrightarrow> (\<exists>evs. trace st' = trace st @ evs \<and> list_all P evs)"

text \<open>
  \<open>admitted cfg ev d p\<close>: every directory strictly between \<open>d\<close> and \<open>p\<close> passed both tests
  of the loop (not excluded, include test).
\<close>

definition admitted :: "config \<Rightarrow> env \<Rightarrow> path \<Rightarrow> path \<Rightarrow> bool" where
  "admitted cfg ev d p \<longleftrightarrow>
     (\<forall>q. strict_prefix d q \<and> strict_prefix q p \<longrightarrow> \<not> isExcluded cfg ev q \<and> shouldRecurse cfg q)"

text \<open>What the loop has checked before it appends a record.\<close>

fun ok_record :: "config \<Rightarrow> env \<Rightarrow> out_record \<Rightarrow> bool" where
  "ok_record cfg ev (Processed p c) =
     (\<not> isExcluded cfg ev p \<and> extname (last p) \<in> set (includeExtensions cfg))"
| "ok_record cfg ev (Placeholder p reason) =
     ((reason = ''Excluded'' \<and> isExcluded cfg ev p \<and> showExcluded cfg)
      \<or> (reason = ''Skipped (non-matching extension)'' \<and> \<not> isExcluded cfg ev p
          \<and> extname (last p) \<notin> set (includeExtensions cfg) \<and> showSkipped cfg))"

text \<open>
  What holds of every history entry that a call of \<^verbatim>\<open>traverseDirectory\<close> on directory \<open>d\<close>
  with output path \<open>outp\<close> adds.
\<close>

fun ok_event :: "config \<Rightarrow> env \<Rightarrow> path \<Rightarrow> path \<Rightarrow> event \<Rightarrow> bool" where
  "ok_event cfg ev d outp (Visit p b) = (strict_prefix d p \<and> admitted cfg ev d p)"
| "ok_event cfg ev d outp (Listed p) =
     (prefix d p \<and> admitted cfg ev d p
      \<and> (p \<noteq> d \<longrightarrow> \<not> isExcluded cfg ev p \<and> shouldRecurse cfg p))"
| "ok_event cfg ev d outp (Read p c) =
     (strict_prefix d p \<and> admitted cfg ev d p \<and> \<not> isExcluded cfg ev p
      \<and> extname (last p) \<in> set (includeExtensions cfg))"
| "ok_event cfg ev d outp (Written p s) = False"
| "ok_event cfg ev d outp (Appended p r s) =
     (p = outp \<and> s = record_text (cwd ev) r \<and> strict_prefix d (record_path r)
      \<and> admitted cfg ev d (record_path r) \<and> ok_record cfg ev r)"
| "ok_event cfg ev d outp (AppendFailed p r) = True"
| "ok_event cfg ev d outp (Stdout s) = True"
| "ok_event cfg ev d outp (Stderr s e) = True"

text \<open>
  \<open>writes_only outp st st'\<close>: from \<open>st\<close> to \<open>st'\<close> no file but \<open>outp\<close> changes, and \<open>outp\<close>
  grows by the texts appended to it in between.
\<close>

definition writes_only :: "path \<Rightarrow> state \<Rightarrow> state \<Rightarrow> bool" where
  "writes_only outp st st' \<longleftrightarrow>
     (\<forall>p. p \<noteq> outp \<longrightarrow> files st' p = files st p)
     \<and> (\<exists>evs. trace st' = trace st @ evs
          \<and> (\<forall>c. files st outp = Some c \<longrightarrow>
                 files st' outp = Some (c @ concat (appended_to outp evs))))"

text \<open>
  What a history entry of a traversal of directory \<open>d\<close> calls for: a list of alternatives
  for each thing that has to be in the history with it. An entry the loop took calls for
  what its branch does (a placeholder or the failure of its append, a listing); a listing,
  a read and a record call for the entry the loop took, and a processed record for the
  read that gave its content.
\<close>

fun expects :: "config \<Rightarrow> env \<Rightarrow> path \<Rightarrow> path \<Rightarrow> event \<Rightarrow> event list list" where
  "expects cfg ev d outp (Visit p b) =
     (if isExcluded cfg ev p then
        (if showExcluded cfg
         then [[Appended outp (Placeholder p ''Excluded'')
                  (record_text (cwd ev) (Placeholder p ''Excluded'')),
                AppendFailed outp (Placeholder p ''Excluded'')]]
         else [])
      else if b then (if shouldRecurse cfg p then [[Listed p]] else [])
      else if extname (last p) \<in> set (includeExtensions cfg) then []
      else if showSkipped cfg
      then [[Appended outp (Placeholder p ''Skipped (non-matching extension)'')
               (record_text (cwd ev) (Placeholder p ''Skipped (non-matching extension)'')),
             AppendFailed outp (Placeholder p ''Skipped (non-matching extension)'')]]
      else [])"
| "expects cfg ev d outp (Listed p) = (if p = d then [] else [[Visit p True]])"
| "expects cfg ev d outp (Read p c) = [[Visit p False]]"
| "expects cfg ev d outp (Appended q (Processed p c) s) = [[Visit p False], [Read p (Some c)]]"
| "expects cfg ev d outp (Appended q (Placeholder p reason) s) =
     (if isExcluded cfg ev p then [[Visit p True, Visit p False]] else [[Visit p False]])"
| "expects cfg ev d outp e = []"

text \<open>
  \<open>closed\<close>: a list of history entries holds, for each of its entries, one of the
  alternatives of everything the entry calls for. \<open>grows_closed\<close>: the history grows by
  such a list.
\<close>

definition closed :: "config \<Rightarrow> env \<Rightarrow> path \<Rightarrow> path \<Rightarrow> event list \<Rightarrow> bool" where
  "closed cfg ev d outp evs \<longleftrightarrow>
     (\<forall>e \<in> set evs. \<forall>alts \<in> set (expects cfg ev d outp e). \<exists>x \<in> set alts. x \<in> set evs)"

definition grows_closed :: "config \<Rightarrow> env \<Rightarrow> path \<Rightarrow> path \<Rightarrow> state \<Rightarrow> state \<Rightarrow> bool" where
  "grows_closed cfg ev outp d st st' \<longleftrightarrow>
     (\<exists>evs. trace st' = trace st @ evs \<and> closed cfg ev d outp evs)"

text \<open>The entry of the scanned tree that a history entry is about.\<close>

fun event_path :: "event \<Rightarrow> path option" where
  "event_path (Visit p b) = Some p"
| "event_path (Listed p) = Some p"
| "event_path (Read p c) = Some p"
| "event_path (Appended q r s) = Some (record_path r)"
| "event_path e = None"

text \<open>Whether a history entry is a write to a file.\<close>

definition is_write :: "event \<Rightarrow> bool" where
  "is_write e \<longleftrightarrow> write_target e \<noteq> None"

text \<open>The records appended in a history, and the entries the loop took, in order.\<close>

fun emitted :: "event list \<Rightarrow> out_record list" where
  "emitted [] = []"
| "emitted (Appended q r s # es) = r # emitted es"
| "emitted (e # es) = emitted es"

fun visited :: "event list \<Rightarrow> path list" where
  "visited [] = []"
| "visited (Visit p b # es) = p # visited es"
| "visited (e # es) = visited es"


section \<open>Example configurations and trees\<close>

text \<open>
  The default configuration of lines 18 to 27, as the option resolution of lines 53 to 60
  leaves it when there is neither a configuration file nor a command-line option.
\<close>

definition defaultConfig :: config where
  "defaultConfig =
     \<lparr>scanDir = ''.'', includeDirs = [],
      excludePatterns = [''node_modules'', ''.git'', ''dist'', ''build'',
                         ''package.json'', ''package-lock.json''],
      includeExtensions = [''.js'', ''.ts'', ''.json''],
      showExcluded = True, showSkipped = True, outputFile = ''output.sick''\<rparr>"

text \<open>
  A small project in \<^verbatim>\<open>/home/u\<close>, scanned from there. The output file is the last entry
  of the listing: it exists when the walk starts.
\<close>

definition project_tree :: node where
  "project_tree =
     Dir (Some [(''node_modules'', Dir (Some [(''lib.js'', File (Some ''L''))])),
                (''README.md'', File (Some ''hi'')),
                (''src'', Dir (Some [(''a.js'', File (Some ''let a = 1;''))])),
                (''output.sick'', File (Some []))])"

definition project_env :: env where
  "project_env =
     \<lparr>cwd = [''home'', ''u''],
      lookup = (\<lambda>p. if p = [''home'', ''u''] then Some project_tree else None),
      write_ok = (\<lambda>n. True)\<rparr>"

text \<open>The same project when the third write (the placeholder of \<^verbatim>\<open>README.md\<close>) fails.\<close>

definition flaky_env :: env where
  "flaky_env = project_env\<lparr>write_ok := (\<lambda>n. n \<noteq> 2)\<rparr>"

text \<open>The same project when the second write (the placeholder of \<^verbatim>\<open>node_modules\<close>) fails.\<close>

definition denied_env :: env where
  "denied_env = project_env\<lparr>write_ok := (\<lambda>n. n \<noteq> 1)\<rparr>"

text \<open>The same project when the fourth write (the record of \<^verbatim>\<open>src/a.js\<close>) fails.\<close>

definition late_env :: env where
  "late_env = project_env\<lparr>write_ok := (\<lambda>n. n \<noteq> 3)\<rparr>"

text \<open>The option \<^verbatim>\<open>--scan nope\<close>: the example project has no such directory.\<close>

definition nope_config :: config where
  "nope_config = defaultConfig\<lparr>scanDir := ''nope''\<rparr>"

text \<open>A tree with two directories and the option \<^verbatim>\<open>--include src\<close>.\<close>

definition include_config :: config where
  "include_config = defaultConfig\<lparr>includeDirs := [''src'']\<rparr>"

definition two_dirs_tree :: node where
  "two_dirs_tree =
     Dir (Some [(''src'', Dir (Some [(''x.js'', File (Some ''X''))])),
                (''lib'', Dir (Some [(''y.js'', File (Some ''Y'')),
                                     (''README.md'', File (Some ''R''))])),
                (''output.sick'', File (Some []))])"

definition plain_env :: env where
  "plain_env =
     \<lparr>cwd = [''home'', ''u''],
      lookup = (\<lambda>p. if p = [''home'', ''u''] then Some two_dirs_tree else None),
      write_ok = (\<lambda>n. True)\<rparr>"

text \<open>The same tree in a working directory whose own path contains \<^verbatim>\<open>src\<close>.\<close>

definition nested_env :: env where
  "nested_env =
     \<lparr>cwd = [''home'', ''src'', ''proj''],
      lookup = (\<lambda>p. if p = [''home'', ''src'', ''proj''] then Some two_dirs_tree else None),
      write_ok = (\<lambda>n. True)\<rparr>"

text \<open>
  A tree with an unreadable file and an unlistable directory, in a run where every write
  after the truncation fails.
\<close>

definition broken_tree :: node where
  "broken_tree =
     Dir (Some [(''a.js'', File None), (''sub'', Dir None), (''b.js'', File (Some ''b'')),
                (''output.sick'', File (Some []))])"

definition broken_env :: env where
  "broken_env =
     \<lparr>cwd = [''home'', ''u''],
      lookup = (\<lambda>p. if p = [''home'', ''u''] then Some broken_tree else None),
      write_ok = (\<lambda>n. n = 0)\<rparr>"

text \<open>A scan of \<^verbatim>\<open>/srv/data\<close> started in \<^verbatim>\<open>/home/u\<close>.\<close>

definition elsewhere_config :: config where
  "elsewhere_config = defaultConfig\<lparr>scanDir := ''/srv/data''\<rparr>"

definition elsewhere_env :: env where
  "elsewhere_env =
     \<lparr>cwd = [''home'', ''u''],
      lookup = (\<lambda>p. if p = [''srv'', ''data'']
                      then Some (Dir (Some [(''a.js'', File (Some ''x''))])) else None),
      write_ok = (\<lambda>n. True)\<rparr>"

text \<open>A stale output file left in the example project by an earlier run.\<close>

definition stale_files :: "path \<Rightarrow> string option" where
  "stale_files = [[''home'', ''u'', ''output.sick''] \<mapsto> ''stale'']"


section \<open>Matching\<close>

lemma str_includes_iff: "str_includes s pat \<longleftrightarrow> (\<exists>pre suf. s = pre @ pat @ suf)"
proof (induction s)
  case Nil
  show ?case by auto
next
  case (Cons c cs)
  have "take (length pat) (c # cs) = pat \<longleftrightarrow> (\<exists>suf. c # cs = pat @ suf)"
    by (metis append_eq_conv_conj)
  moreover have "(\<exists>pre suf. c # cs = pre @ pat @ suf) \<longleftrightarrow>
        (\<exists>suf. c # cs = pat @ suf) \<or> (\<exists>pre suf. cs = pre @ pat @ suf)"
    (is "?L \<longleftrightarrow> ?R")
  proof
    assume ?L
    then obtain pre suf where e: "c # cs = pre @ pat @ suf" by blast
    show ?R
    proof (cases pre)
      case Nil
      with e show ?thesis by auto
    next
      case (Cons a pre')
      with e have "cs = pre' @ pat @ suf" by simp
      then show ?thesis by blast
    qed
  next
    assume ?R
    then show ?L
    proof
      assume "\<exists>suf. c # cs = pat @ suf"
      then obtain suf where "c # cs = [] @ pat @ suf" by auto
      then show ?L by blast
    next
      assume "\<exists>pre suf. cs = pre @ pat @ suf"
      then obtain pre suf where "c # cs = (c # pre) @ pat @ suf" by auto
      then show ?L by blast
    qed
  qed
  ultimately show ?case using Cons.IH by simp
qed


section \<open>The traversal in the shape of the source\<close>

text \<open>
  The two functions in the shape of the source: one \<^verbatim>\<open>try\<close> around the listing and the
  loop, and one loop body with the three branches of lines 95 to 117.
\<close>

lemma traverseDirectory_unfold:
  "traverseDirectory cfg ev dirPath outputFilePath nd st =
     (case fs_readdir dirPath nd st of
        (Inl error, st1) \<Rightarrow>
          console_error (''Error traversing directory '' @ path_string dirPath @ '':'')
            (Some error) st1
      | (Inr entries, st1) \<Rightarrow>
          (case traverse_entries cfg ev dirPath outputFilePath entries st1 of
             (Some error, st2) \<Rightarrow>
               console_error (''Error traversing directory '' @ path_string dirPath @ '':'')
                 (Some error) st2
           | (None, st2) \<Rightarrow> st2))"
proof (cases nd)
  case (File c)
  then show ?thesis by (simp add: fs_readdir_def)
next
  case (Dir l)
  then show ?thesis by (cases l) (simp_all add: fs_readdir_def)
qed

lemma traverse_entries_unfold:
  "traverse_entries cfg ev dirPath outputFilePath ((name, nd) # rest) st =
     (let fullPath = dirPath @ [name];
          st0 = emit (Visit fullPath (\<exists>l. nd = Dir l)) st
      in if isExcluded cfg ev fullPath then
           (if showExcluded cfg then
              (case logSkippedFile ev fullPath outputFilePath ''Excluded'' st0 of
                 (Some error, st1) \<Rightarrow> (Some error, st1)
               | (None, st1) \<Rightarrow> traverse_entries cfg ev dirPath outputFilePath rest st1)
            else traverse_entries cfg ev dirPath outputFilePath rest st0)
         else if (\<exists>l. nd = Dir l) then
           (if length (includeDirs cfg) = 0
               \<or> list_ex (\<lambda>d. str_includes (path_string fullPath) d) (includeDirs cfg)
            then traverse_entries cfg ev dirPath outputFilePath rest
                   (traverseDirectory cfg ev fullPath outputFilePath nd st0)
            else traverse_entries cfg ev dirPath outputFilePath rest st0)
         else
           (let ext = extname name
            in if ext \<notin> set (includeExtensions cfg) then
                 (if showSkipped cfg then
                    (case logSkippedFile ev fullPath outputFilePath
                            ''Skipped (non-matching extension)'' st0 of
                       (Some error, st1) \<Rightarrow> (Some error, st1)
                     | (None, st1) \<Rightarrow> traverse_entries cfg ev dirPath outputFilePath rest st1)
                  else traverse_entries cfg ev dirPath outputFilePath rest st0)
               else traverse_entries cfg ev dirPath outputFilePath rest
                      (processFile ev fullPath outputFilePath nd st0)))"
  by (cases nd) (simp_all add: Let_def shouldRecurse_def)


subsection \<open>Failures on one entry\<close>

text \<open>
  A failed listing, a failed read and a failed append of a processed file are printed and
  the loop goes on with the rest of the listing.
\<close>

lemma unlistable_directory_continues:
  assumes "\<not> isExcluded cfg ev (d @ [name])" and "shouldRecurse cfg (d @ [name])"
  shows "traverse_entries cfg ev d outp ((name, Dir None) # rest) st =
           traverse_entries cfg ev d outp rest
             (st\<lparr>trace := trace st @
                    [Visit (d @ [name]) True, Listed (d @ [name]),
                     Stderr (''Error traversing directory '' @ path_string (d @ [name]) @ '':'')
                       (Some ReaddirFailed)]\<rparr>)"
  using assms by (simp add: fs_readdir_def console_error_def emit_def Let_def)

lemma unreadable_file_continues:
  assumes "\<not> isExcluded cfg ev (d @ [name])" and "extname name \<in> set (includeExtensions cfg)"
  shows "traverse_entries cfg ev d outp ((name, File None) # rest) st =
           traverse_entries cfg ev d outp rest
             (st\<lparr>trace := trace st @
                    [Visit (d @ [name]) False, Read (d @ [name]) None,
                     Stderr (''Error processing file '' @ path_string (d @ [name]) @ '':'')
                       (Some ReadFailed)]\<rparr>)"
  using assms by (simp add: processFile_def fs_readFile_def console_error_def emit_def Let_def)

lemma failed_content_append_continues:
  assumes "\<not> isExcluded cfg ev (d @ [name])" and "extname name \<in> set (includeExtensions cfg)"
    and "\<not> write_ok ev (attempts st)" and "files st (d @ [name]) = None"
  shows "traverse_entries cfg ev d outp ((name, File (Some c)) # rest) st =
           traverse_entries cfg ev d outp rest
             (st\<lparr>attempts := Suc (attempts st),
                  trace := trace st @
                    [Visit (d @ [name]) False, Read (d @ [name]) (Some c),
                     AppendFailed outp (Processed (d @ [name]) c),
                     Stderr (''Error processing file '' @ path_string (d @ [name]) @ '':'')
                       (Some WriteFailed)]\<rparr>)"
  using assms
  by (simp add: processFile_def fs_readFile_def fs_appendFile_def console_error_def emit_def Let_def)

text \<open>
  A failed append of a placeholder leaves the loop: whatever the rest of the listing is, it
  is not looked at.
\<close>

lemma failed_placeholder_append_leaves_loop:
  assumes "\<not> write_ok ev (attempts st)"
    and "isExcluded cfg ev (d @ [name]) \<and> showExcluded cfg
         \<or> \<not> isExcluded cfg ev (d @ [name]) \<and> (\<forall>l. nd \<noteq> Dir l)
             \<and> extname name \<notin> set (includeExtensions cfg) \<and> showSkipped cfg"
  shows "traverse_entries cfg ev d outp ((name, nd) # rest) st =
           (Some WriteFailed,
            st\<lparr>attempts := Suc (attempts st),
                trace := trace st @
                  [Visit (d @ [name]) (\<exists>l. nd = Dir l),
                   AppendFailed outp
                     (Placeholder (d @ [name])
                        (if isExcluded cfg ev (d @ [name]) then ''Excluded''
                         else ''Skipped (non-matching extension)''))]\<rparr>)"
  using assms
  by (cases nd) (auto simp: logSkippedFile_def fs_appendFile_def emit_def Let_def)


section \<open>How the history grows\<close>


lemma grows_refl: "grows P st st"
  by (simp add: grows_def)

lemma grows_trans: "grows P st st1 \<Longrightarrow> grows P st1 st2 \<Longrightarrow> grows P st st2"
  by (auto simp: grows_def)

lemma grows_emit: "P e \<Longrightarrow> grows P st (emit e st)"
  by (simp add: grows_def emit_def)

lemma grows_emit_after: "grows P st st1 \<Longrightarrow> P e \<Longrightarrow> grows P st (emit e st1)"
  by (auto simp: grows_def emit_def)

lemma grows_mono: "(\<And>e. P e \<Longrightarrow> Q e) \<Longrightarrow> grows P st st' \<Longrightarrow> grows Q st st'"
  by (auto simp: grows_def list_all_iff)

lemma grows_readdir: "P (Listed p) \<Longrightarrow> grows P st (snd (fs_readdir p nd st))"
  by (auto simp: fs_readdir_def grows_emit split: node.splits option.splits)

lemma grows_readFile: "(\<And>c. P (Read p c)) \<Longrightarrow> grows P st (snd (fs_readFile p nd st))"
  by (auto simp: fs_readFile_def grows_emit Let_def split: node.splits option.splits)

lemma grows_appendFile:
  "P (Appended p r s) \<Longrightarrow> P (AppendFailed p r) \<Longrightarrow>
   grows P st (snd (fs_appendFile ev p s r st))"
  by (auto simp: fs_appendFile_def grows_def emit_def)

lemma grows_processFile:
  assumes "\<And>c. P (Read p c)"
    and "\<And>c. P (Appended outp (Processed p c) (record_text (cwd ev) (Processed p c)))"
    and "\<And>s. P (Stdout s)" and "\<And>s e. P (Stderr s e)"
    and "\<And>c. P (AppendFailed outp (Processed p c))"
  shows "grows P st (processFile ev p outp nd st)"
proof -
  obtain r st1 where rd: "fs_readFile p nd st = (r, st1)" by (cases "fs_readFile p nd st")
  have g1: "grows P st st1" using grows_readFile [where P=P and p=p and st=st and nd=nd] assms(1) rd by simp
  show ?thesis
  proof (cases r)
    case (Inl e)
    then show ?thesis using rd g1 assms(4)
      by (simp add: processFile_def console_error_def grows_emit_after)
  next
    case (Inr c)
    obtain w st2 where ap: "fs_appendFile ev outp (record_text (cwd ev) (Processed p c)) (Processed p c) st1 = (w, st2)"
      by (cases "fs_appendFile ev outp (record_text (cwd ev) (Processed p c)) (Processed p c) st1")
    have g2: "grows P st1 st2" using grows_appendFile [where P=P and st=st1 and ev=ev and p=outp and r="Processed p c" and s="record_text (cwd ev) (Processed p c)"] assms(2,5) ap by simp
    have g3: "grows P st st2" using g1 g2 by (rule grows_trans)
    show ?thesis using Inr rd ap g3 assms(3,4)
      by (cases w) (simp_all add: processFile_def console_error_def console_log_def grows_emit_after)
  qed
qed

lemma grows_logSkippedFile:
  assumes "P (Appended outp (Placeholder p reason) (record_text (cwd ev) (Placeholder p reason)))"
    and "\<And>s. P (Stdout s)" and "P (AppendFailed outp (Placeholder p reason))"
  shows "grows P st (snd (logSkippedFile ev p outp reason st))"
proof -
  obtain w st1 where ap: "fs_appendFile ev outp (record_text (cwd ev) (Placeholder p reason)) (Placeholder p reason) st = (w, st1)"
    by (cases "fs_appendFile ev outp (record_text (cwd ev) (Placeholder p reason)) (Placeholder p reason) st")
  have g1: "grows P st st1" using grows_appendFile [where P=P and st=st and ev=ev and p=outp and r="Placeholder p reason" and s="record_text (cwd ev) (Placeholder p reason)"] assms(1,3) ap by simp
  show ?thesis using ap g1 assms(2)
    by (cases w) (simp_all add: logSkippedFile_def console_log_def grows_emit_after)
qed


lemma strict_between_snoc: "\<not> (strict_prefix d q \<and> strict_prefix q (d @ [n]))"
  by (auto simp: strict_prefix_def)

lemma admitted_child: "admitted cfg ev d (d @ [n])"
  by (simp add: admitted_def strict_between_snoc)

lemma admitted_lift:
  assumes "prefix (d @ [n]) p" and "admitted cfg ev (d @ [n]) p"
    and "\<not> isExcluded cfg ev (d @ [n])" and "shouldRecurse cfg (d @ [n])"
  shows "admitted cfg ev d p"
  unfolding admitted_def
proof (intro allI impI)
  fix q assume q: "strict_prefix d q \<and> strict_prefix q p"
  then have "prefix q p" by (simp add: strict_prefix_def)
  with assms(1) have "prefix q (d @ [n]) \<or> prefix (d @ [n]) q"
    using prefix_same_cases by blast
  then consider "q = d @ [n]" | "strict_prefix (d @ [n]) q" | "strict_prefix q (d @ [n])"
    by (auto simp: strict_prefix_def)
  then show "\<not> isExcluded cfg ev q \<and> shouldRecurse cfg q"
  proof cases
    case 1 then show ?thesis using assms(3,4) by simp
  next
    case 2 then show ?thesis using assms(2) q by (auto simp: admitted_def)
  next
    case 3 then show ?thesis using q strict_between_snoc [of d q n] by simp
  qed
qed

lemma strict_prefix_snoc_lift: "prefix (d @ [n]) p \<Longrightarrow> strict_prefix d p"
  by (auto simp: prefix_def strict_prefix_def)

lemma ok_event_lift:
  assumes "ok_event cfg ev (d @ [n]) outp e"
    and "\<not> isExcluded cfg ev (d @ [n])" and "shouldRecurse cfg (d @ [n])"
  shows "ok_event cfg ev d outp e"
proof (cases e)
  case (Visit p b)
  then show ?thesis using assms admitted_lift [of d n p cfg ev] strict_prefix_snoc_lift [of d n p]
    by (auto simp: strict_prefix_def)
next
  case (Listed p)
  then show ?thesis using assms admitted_lift [of d n p cfg ev] strict_prefix_snoc_lift [of d n p]
    by (auto simp: strict_prefix_def)
next
  case (Read p c)
  then show ?thesis using assms admitted_lift [of d n p cfg ev] strict_prefix_snoc_lift [of d n p]
    by (auto simp: strict_prefix_def)
next
  case (Appended p r s)
  then show ?thesis using assms admitted_lift [of d n "record_path r" cfg ev]
      strict_prefix_snoc_lift [of d n "record_path r"]
    by (auto simp: strict_prefix_def)
qed (use assms in auto)


lemma traverse_rel:
  fixes R :: "path \<Rightarrow> state \<Rightarrow> state \<Rightarrow> bool"
  assumes R_refl: "\<And>d st. R d st st"
    and R_trans: "\<And>d a b c. R d a b \<Longrightarrow> R d b c \<Longrightarrow> R d a c"
    and unlistable: "\<And>d nd st. (\<forall>es. nd \<noteq> Dir (Some es)) \<Longrightarrow>
          R d st (console_error (''Error traversing directory '' @ path_string d @ '':'')
                    (Some ReaddirFailed) (snd (fs_readdir d nd st)))"
    and listing: "\<And>d es st. R d st (snd (fs_readdir d (Dir (Some es)) st))"
    and caught: "\<And>d e st. R d st
          (console_error (''Error traversing directory '' @ path_string d @ '':'') (Some e) st)"
    and excluded_shown: "\<And>d n b st. isExcluded cfg ev (d @ [n]) \<Longrightarrow> showExcluded cfg \<Longrightarrow>
          R d st (snd (logSkippedFile ev (d @ [n]) outp ''Excluded'' (emit (Visit (d @ [n]) b) st)))"
    and excluded_hidden: "\<And>d n b st. isExcluded cfg ev (d @ [n]) \<Longrightarrow> \<not> showExcluded cfg \<Longrightarrow>
          R d st (emit (Visit (d @ [n]) b) st)"
    and skipped_shown: "\<And>d n st. \<not> isExcluded cfg ev (d @ [n]) \<Longrightarrow>
          extname n \<notin> set (includeExtensions cfg) \<Longrightarrow> showSkipped cfg \<Longrightarrow>
          R d st (snd (logSkippedFile ev (d @ [n]) outp ''Skipped (non-matching extension)''
                         (emit (Visit (d @ [n]) False) st)))"
    and skipped_hidden: "\<And>d n st. \<not> isExcluded cfg ev (d @ [n]) \<Longrightarrow>
          extname n \<notin> set (includeExtensions cfg) \<Longrightarrow> \<not> showSkipped cfg \<Longrightarrow>
          R d st (emit (Visit (d @ [n]) False) st)"
    and processed: "\<And>d n c st. \<not> isExcluded cfg ev (d @ [n]) \<Longrightarrow>
          extname n \<in> set (includeExtensions cfg) \<Longrightarrow>
          R d st (processFile ev (d @ [n]) outp (File c) (emit (Visit (d @ [n]) False) st))"
    and rejected: "\<And>d n st. \<not> isExcluded cfg ev (d @ [n]) \<Longrightarrow> \<not> shouldRecurse cfg (d @ [n]) \<Longrightarrow>
          R d st (emit (Visit (d @ [n]) True) st)"
    and recursed: "\<And>d n l st. \<not> isExcluded cfg ev (d @ [n]) \<Longrightarrow> shouldRecurse cfg (d @ [n]) \<Longrightarrow>
          R (d @ [n]) (emit (Visit (d @ [n]) True) st)
            (traverseDirectory cfg ev (d @ [n]) outp (Dir l) (emit (Visit (d @ [n]) True) st)) \<Longrightarrow>
          R d st (traverseDirectory cfg ev (d @ [n]) outp (Dir l) (emit (Visit (d @ [n]) True) st))"
  shows "R d st (traverseDirectory cfg ev d outp nd st)"
    and "R d st (snd (traverse_entries cfg ev d outp es st))"
  using assms
proof (induction cfg ev d outp nd st and cfg ev d outp es st
    rule: traverseDirectory_traverse_entries.induct)
  case (1 cfg ev dirPath outputFilePath c st)
  show ?case using "1.prems"(3) [of "File c" dirPath st] by (simp add: split_beta)
next
  case (2 cfg ev dirPath outputFilePath st)
  show ?case using "2.prems"(3) [of "Dir None" dirPath st] by (simp add: split_beta)
next
  case (3 cfg ev dirPath outputFilePath entries st)
  let ?st1 = "snd (fs_readdir dirPath (Dir (Some entries)) st)"
  obtain w st2 where te: "traverse_entries cfg ev dirPath outputFilePath entries ?st1 = (w, st2)"
    by (cases "traverse_entries cfg ev dirPath outputFilePath entries ?st1")
  have a: "R dirPath st ?st1" by (rule "3.prems"(4))
  have b: "R dirPath ?st1 st2"
    using "3.IH" [of "fst (fs_readdir dirPath (Dir (Some entries)) st)" ?st1, OF _ "3.prems"] te
    by simp
  have c: "R dirPath st st2" using a b by (rule "3.prems"(2))
  show ?case
  proof (cases w)
    case None
    then show ?thesis using te c by (simp add: split_beta)
  next
    case (Some e)
    have "R dirPath st2 (console_error (''Error traversing directory '' @ path_string dirPath @ '':'') (Some e) st2)"
      by (rule "3.prems"(5))
    with c have "R dirPath st (console_error (''Error traversing directory '' @ path_string dirPath @ '':'') (Some e) st2)"
      by (rule "3.prems"(2))
    then show ?thesis using te Some by (simp add: split_beta)
  qed
next
  case (4 cfg ev dirPath outputFilePath st)
  then show ?case by simp
next
  case (5 cfg ev dirPath outputFilePath name c rest st)
  let ?p = "dirPath @ [name]"
  let ?st0 = "emit (Visit ?p False) st"
  let ?loop = "\<lambda>s. snd (traverse_entries cfg ev dirPath outputFilePath rest s)"
  note tr = "5.prems"(2)
  show ?case
  proof (cases "isExcluded cfg ev ?p")
    case exc: True
    show ?thesis
    proof (cases "showExcluded cfg")
      case sh: True
      obtain w st1 where ls: "logSkippedFile ev ?p outputFilePath ''Excluded'' ?st0 = (w, st1)"
        by (cases "logSkippedFile ev ?p outputFilePath ''Excluded'' ?st0")
      have a: "R dirPath st st1" using "5.prems"(6) [where d=dirPath and n=name and b=False and st=st, OF exc sh] ls by simp
      show ?thesis
      proof (cases w)
        case None
        have "R dirPath st1 (?loop st1)"
          using "5.IH"(1) [OF refl refl exc sh ls [symmetric] None "5.prems"] .
        with a have "R dirPath st (?loop st1)" by (rule tr)
        then show ?thesis using exc sh ls None by (simp add: Let_def)
      next
        case (Some e)
        then show ?thesis using exc sh ls a by (simp add: Let_def)
      qed
    next
      case sh: False
      have a: "R dirPath st ?st0" by (rule "5.prems"(7) [OF exc sh])
      have "R dirPath ?st0 (?loop ?st0)" using "5.IH"(2) [OF refl refl exc sh "5.prems"] .
      with a have "R dirPath st (?loop ?st0)" by (rule tr)
      then show ?thesis using exc sh by (simp add: Let_def)
    qed
  next
    case exc: False
    show ?thesis
    proof (cases "extname name \<in> set (includeExtensions cfg)")
      case ext: False
      show ?thesis
      proof (cases "showSkipped cfg")
        case sh: True
        obtain w st1 where ls: "logSkippedFile ev ?p outputFilePath ''Skipped (non-matching extension)'' ?st0 = (w, st1)"
          by (cases "logSkippedFile ev ?p outputFilePath ''Skipped (non-matching extension)'' ?st0")
        have a: "R dirPath st st1" using "5.prems"(8) [where d=dirPath and n=name and st=st, OF exc ext sh] ls by simp
        show ?thesis
        proof (cases w)
          case None
          have "R dirPath st1 (?loop st1)"
            using "5.IH"(3) [OF refl refl exc refl ext sh ls [symmetric] None "5.prems"] .
          with a have "R dirPath st (?loop st1)" by (rule tr)
          then show ?thesis using exc ext sh ls None by (simp add: Let_def)
        next
          case (Some e)
          then show ?thesis using exc ext sh ls a by (simp add: Let_def)
        qed
      next
        case sh: False
        have a: "R dirPath st ?st0" by (rule "5.prems"(9) [OF exc ext sh])
        have "R dirPath ?st0 (?loop ?st0)"
          using "5.IH"(4) [OF refl refl exc refl ext sh "5.prems"] .
        with a have "R dirPath st (?loop ?st0)" by (rule tr)
        then show ?thesis using exc ext sh by (simp add: Let_def)
      qed
    next
      case ext: True
      let ?st1 = "processFile ev ?p outputFilePath (File c) ?st0"
      have a: "R dirPath st ?st1" by (rule "5.prems"(10) [OF exc ext])
      have nn: "\<not> extname name \<notin> set (includeExtensions cfg)" using ext by simp
      have "R dirPath ?st1 (?loop ?st1)"
        using "5.IH"(5) [OF refl refl exc refl nn "5.prems"] .
      with a have "R dirPath st (?loop ?st1)" by (rule tr)
      then show ?thesis using exc ext by (simp add: Let_def)
    qed
  qed
next
  case (6 cfg ev dirPath outputFilePath name l rest st)
  let ?p = "dirPath @ [name]"
  let ?st0 = "emit (Visit ?p True) st"
  let ?loop = "\<lambda>s. snd (traverse_entries cfg ev dirPath outputFilePath rest s)"
  note tr = "6.prems"(2)
  show ?case
  proof (cases "isExcluded cfg ev ?p")
    case exc: True
    show ?thesis
    proof (cases "showExcluded cfg")
      case sh: True
      obtain w st1 where ls: "logSkippedFile ev ?p outputFilePath ''Excluded'' ?st0 = (w, st1)"
        by (cases "logSkippedFile ev ?p outputFilePath ''Excluded'' ?st0")
      have a: "R dirPath st st1" using "6.prems"(6) [where d=dirPath and n=name and b=True and st=st, OF exc sh] ls by simp
      show ?thesis
      proof (cases w)
        case None
        have "R dirPath st1 (?loop st1)"
          using "6.IH"(1) [OF refl refl exc sh ls [symmetric] None "6.prems"] .
        with a have "R dirPath st (?loop st1)" by (rule tr)
        then show ?thesis using exc sh ls None by (simp add: Let_def)
      next
        case (Some e)
        then show ?thesis using exc sh ls a by (simp add: Let_def)
      qed
    next
      case sh: False
      have a: "R dirPath st ?st0" by (rule "6.prems"(7) [OF exc sh])
      have "R dirPath ?st0 (?loop ?st0)" using "6.IH"(2) [OF refl refl exc sh "6.prems"] .
      with a have "R dirPath st (?loop ?st0)" by (rule tr)
      then show ?thesis using exc sh by (simp add: Let_def)
    qed
  next
    case exc: False
    show ?thesis
    proof (cases "shouldRecurse cfg ?p")
      case rc: True
      let ?st1 = "traverseDirectory cfg ev ?p outputFilePath (Dir l) ?st0"
      have "R ?p ?st0 ?st1" using "6.IH"(3) [OF refl refl exc rc "6.prems"] .
      then have a: "R dirPath st ?st1" by (rule "6.prems"(12) [OF exc rc])
      have "R dirPath ?st1 (?loop ?st1)" using "6.IH"(4) [OF refl refl exc rc "6.prems"] .
      with a have "R dirPath st (?loop ?st1)" by (rule tr)
      then show ?thesis using exc rc by (simp add: Let_def)
    next
      case rc: False
      have a: "R dirPath st ?st0" by (rule "6.prems"(11) [OF exc rc])
      have "R dirPath ?st0 (?loop ?st0)" using "6.IH"(5) [OF refl refl exc rc "6.prems"] .
      with a have "R dirPath st (?loop ?st0)" by (rule tr)
      then show ?thesis using exc rc by (simp add: Let_def)
    qed
  qed
qed


lemma strict_prefix_self_snoc: "strict_prefix d (d @ [n])"
  by (simp add: strict_prefix_def)

lemma admitted_self: "admitted cfg ev d d"
  by (auto simp: admitted_def strict_prefix_def)

lemma grows_visit_then:
  "grows (ok_event cfg ev d outp) (emit (Visit (d @ [n]) b) st) st' \<Longrightarrow>
   grows (ok_event cfg ev d outp) st st'"
  using grows_trans [OF grows_emit [where P="ok_event cfg ev d outp" and e="Visit (d @ [n]) b" and st=st]]
  by (simp add: admitted_child strict_prefix_self_snoc)

lemma traverse_grows:
  "grows (ok_event cfg ev d outp) st (traverseDirectory cfg ev d outp nd st)"
  "grows (ok_event cfg ev d outp) st (snd (traverse_entries cfg ev d outp es st))"
proof -
  let ?R = "\<lambda>d. grows (ok_event cfg ev d outp)"
  have r: "\<And>d st. ?R d st st" by (rule grows_refl)
  have t: "\<And>d a b c. ?R d a b \<Longrightarrow> ?R d b c \<Longrightarrow> ?R d a c" by (rule grows_trans)
  have l: "\<And>d nd st. ?R d st (snd (fs_readdir d nd st))"
    by (rule grows_readdir) (simp add: admitted_self)
  have u: "\<And>d nd st. (\<forall>es. nd \<noteq> Dir (Some es)) \<Longrightarrow>
          ?R d st (console_error (''Error traversing directory '' @ path_string d @ '':'')
                    (Some ReaddirFailed) (snd (fs_readdir d nd st)))"
    unfolding console_error_def by (rule grows_emit_after [OF l]) simp
  have c: "\<And>d e st. ?R d st
          (console_error (''Error traversing directory '' @ path_string d @ '':'') (Some e) st)"
    unfolding console_error_def by (rule grows_emit) simp
  have es: "\<And>d n b st. isExcluded cfg ev (d @ [n]) \<Longrightarrow> showExcluded cfg \<Longrightarrow>
          ?R d st (snd (logSkippedFile ev (d @ [n]) outp ''Excluded'' (emit (Visit (d @ [n]) b) st)))"
    by (rule grows_visit_then, rule grows_logSkippedFile) (simp_all add: admitted_child strict_prefix_self_snoc)
  have eh: "\<And>d n b st. isExcluded cfg ev (d @ [n]) \<Longrightarrow> \<not> showExcluded cfg \<Longrightarrow>
          ?R d st (emit (Visit (d @ [n]) b) st)"
    by (rule grows_emit) (simp add: admitted_child strict_prefix_self_snoc)
  have ss: "\<And>d n st. \<not> isExcluded cfg ev (d @ [n]) \<Longrightarrow>
          extname n \<notin> set (includeExtensions cfg) \<Longrightarrow> showSkipped cfg \<Longrightarrow>
          ?R d st (snd (logSkippedFile ev (d @ [n]) outp ''Skipped (non-matching extension)''
                         (emit (Visit (d @ [n]) False) st)))"
    by (rule grows_visit_then, rule grows_logSkippedFile) (simp_all add: admitted_child strict_prefix_self_snoc)
  have sh: "\<And>d n st. \<not> isExcluded cfg ev (d @ [n]) \<Longrightarrow>
          extname n \<notin> set (includeExtensions cfg) \<Longrightarrow> \<not> showSkipped cfg \<Longrightarrow>
          ?R d st (emit (Visit (d @ [n]) False) st)"
    by (rule grows_emit) (simp add: admitted_child strict_prefix_self_snoc)
  have p: "\<And>d n c st. \<not> isExcluded cfg ev (d @ [n]) \<Longrightarrow>
          extname n \<in> set (includeExtensions cfg) \<Longrightarrow>
          ?R d st (processFile ev (d @ [n]) outp (File c) (emit (Visit (d @ [n]) False) st))"
    by (rule grows_visit_then, rule grows_processFile) (simp_all add: admitted_child strict_prefix_self_snoc)
  have rj: "\<And>d n st. \<not> isExcluded cfg ev (d @ [n]) \<Longrightarrow> \<not> shouldRecurse cfg (d @ [n]) \<Longrightarrow>
          ?R d st (emit (Visit (d @ [n]) True) st)"
    by (rule grows_emit) (simp add: admitted_child strict_prefix_self_snoc)
  have rc: "\<And>d n l st. \<not> isExcluded cfg ev (d @ [n]) \<Longrightarrow> shouldRecurse cfg (d @ [n]) \<Longrightarrow>
          ?R (d @ [n]) (emit (Visit (d @ [n]) True) st)
            (traverseDirectory cfg ev (d @ [n]) outp (Dir l) (emit (Visit (d @ [n]) True) st)) \<Longrightarrow>
          ?R d st (traverseDirectory cfg ev (d @ [n]) outp (Dir l) (emit (Visit (d @ [n]) True) st))"
    by (rule grows_visit_then, erule grows_mono [rotated]) (rule ok_event_lift)
  show "grows (ok_event cfg ev d outp) st (traverseDirectory cfg ev d outp nd st)"
    by (rule traverse_rel(1) [where R="?R", OF r t u l c es eh ss sh p rj rc])
  show "grows (ok_event cfg ev d outp) st (snd (traverse_entries cfg ev d outp es st))"
    by (rule traverse_rel(2) [where R="?R", OF r t u l c es eh ss sh p rj rc])
qed


lemma appended_to_append: "appended_to p (xs @ ys) = appended_to p xs @ appended_to p ys"
  by (induction p xs rule: appended_to.induct) simp_all

lemma writes_only_refl: "writes_only outp st st"
  by (simp add: writes_only_def)

lemma writes_only_trans:
  "writes_only outp a b \<Longrightarrow> writes_only outp b c \<Longrightarrow> writes_only outp a c"
  unfolding writes_only_def
  by (elim conjE exE, intro conjI, simp) (rule_tac x="evs @ evsa" in exI, simp add: appended_to_append)

lemma writes_only_emit:
  "(\<And>r s. e \<noteq> Appended outp r s) \<Longrightarrow> writes_only outp st (emit e st)"
  by (cases e) (auto simp: writes_only_def emit_def)

lemma writes_only_emit_after:
  "writes_only outp st st1 \<Longrightarrow> (\<And>r s. e \<noteq> Appended outp r s) \<Longrightarrow> writes_only outp st (emit e st1)"
  using writes_only_trans writes_only_emit by blast

lemma writes_only_readdir: "writes_only outp st (snd (fs_readdir p nd st))"
  by (auto simp: fs_readdir_def writes_only_emit split: node.splits option.splits)

lemma writes_only_readFile: "writes_only outp st (snd (fs_readFile p nd st))"
  by (auto simp: fs_readFile_def writes_only_emit split: node.splits option.splits)

lemma writes_only_appendFile: "writes_only outp st (snd (fs_appendFile ev outp s r st))"
  by (auto simp: fs_appendFile_def writes_only_def emit_def)

lemma writes_only_logSkippedFile: "writes_only outp st (snd (logSkippedFile ev p outp reason st))"
proof -
  let ?a = "fs_appendFile ev outp (record_text (cwd ev) (Placeholder p reason)) (Placeholder p reason) st"
  have "writes_only outp st (snd ?a)" by (rule writes_only_appendFile)
  then show ?thesis
    by (cases ?a, cases "fst ?a")
       (simp_all add: logSkippedFile_def console_log_def writes_only_emit_after)
qed

lemma writes_only_processFile: "writes_only outp st (processFile ev p outp nd st)"
proof -
  obtain r st1 where rd: "fs_readFile p nd st = (r, st1)" by (cases "fs_readFile p nd st")
  have g1: "writes_only outp st st1" using writes_only_readFile [of outp st p nd] rd by simp
  show ?thesis
  proof (cases r)
    case (Inl e)
    then show ?thesis using rd g1
      by (simp add: processFile_def console_error_def writes_only_emit_after)
  next
    case (Inr c)
    let ?a = "fs_appendFile ev outp (record_text (cwd ev) (Processed p c)) (Processed p c) st1"
    have "writes_only outp st1 (snd ?a)" by (rule writes_only_appendFile)
    with g1 have "writes_only outp st (snd ?a)" by (rule writes_only_trans)
    then show ?thesis using Inr rd
      by (cases ?a, cases "fst ?a")
         (simp_all add: processFile_def console_error_def console_log_def writes_only_emit_after)
  qed
qed

lemma traverse_writes_only:
  "writes_only outp st (traverseDirectory cfg ev d outp nd st)"
  "writes_only outp st (snd (traverse_entries cfg ev d outp es st))"
proof -
  let ?R = "\<lambda>d::path. writes_only outp"
  note e = writes_only_emit writes_only_emit_after
  have v: "\<And>st st' p b. writes_only outp (emit (Visit p b) st) st' \<Longrightarrow> writes_only outp st st'"
    by (rule writes_only_trans [OF writes_only_emit]) simp_all
  show "writes_only outp st (traverseDirectory cfg ev d outp nd st)"
    by (rule traverse_rel(1) [where R="?R"])
       (simp_all add: writes_only_refl writes_only_readdir console_error_def e
          v [OF writes_only_logSkippedFile] v [OF writes_only_processFile],
        erule (1) writes_only_trans, erule v)
  show "writes_only outp st (snd (traverse_entries cfg ev d outp es st))"
    by (rule traverse_rel(2) [where R="?R"])
       (simp_all add: writes_only_refl writes_only_readdir console_error_def e
          v [OF writes_only_logSkippedFile] v [OF writes_only_processFile],
        erule (1) writes_only_trans, erule v)
qed


lemma closed_Nil: "closed cfg ev d outp []"
  by (simp add: closed_def)

lemma closed_append:
  "closed cfg ev d outp xs \<Longrightarrow> closed cfg ev d outp ys \<Longrightarrow> closed cfg ev d outp (xs @ ys)"
  by (fastforce simp: closed_def)

lemma grows_closed_refl: "grows_closed cfg ev outp d st st"
  by (simp add: grows_closed_def closed_Nil)

lemma grows_closed_trans:
  "grows_closed cfg ev outp d a b \<Longrightarrow> grows_closed cfg ev outp d b c \<Longrightarrow> grows_closed cfg ev outp d a c"
  by (auto simp: grows_closed_def intro: closed_append)

lemma trace_logSkippedFile:
  "trace (snd (logSkippedFile ev p outp reason st)) =
     trace st @ (if write_ok ev (attempts st)
                 then [Appended outp (Placeholder p reason) (record_text (cwd ev) (Placeholder p reason)),
                       Stdout (''Skipped file: '' @ relative (cwd ev) p @ '' ('' @ reason @ '')'')]
                 else [AppendFailed outp (Placeholder p reason)])"
  by (simp add: logSkippedFile_def fs_appendFile_def emit_def console_log_def Let_def)

lemma trace_processFile:
  "(\<exists>c. trace (processFile ev p outp nd st) =
         trace st @ [Read p (Some c),
                     Appended outp (Processed p c) (record_text (cwd ev) (Processed p c)),
                     Stdout (''Processed file: '' @ relative (cwd ev) p)])
   \<or> (\<exists>c e. trace (processFile ev p outp nd st) =
         trace st @ [Read p (Some c), AppendFailed outp (Processed p c),
                     Stderr (''Error processing file '' @ path_string p @ '':'') (Some e)])
   \<or> (\<exists>e. trace (processFile ev p outp nd st) =
         trace st @ [Read p None,
                     Stderr (''Error processing file '' @ path_string p @ '':'') (Some e)])"
  by (cases nd; cases "files st p")
     (auto simp: processFile_def fs_readFile_def fs_appendFile_def emit_def console_log_def
        console_error_def Let_def split: option.splits)

lemma trace_traverseDirectory_first:
  "\<exists>evs. trace (traverseDirectory cfg ev d outp nd st) = trace st @ Listed d # evs"
proof (cases "\<exists>es. nd = Dir (Some es)")
  case False
  then show ?thesis
    by (cases nd) (auto simp: fs_readdir_def emit_def console_error_def split: option.splits)
next
  case True
  then obtain es where nd: "nd = Dir (Some es)" by blast
  let ?st1 = "emit (Listed d) st"
  obtain w st2 where te: "traverse_entries cfg ev d outp es ?st1 = (w, st2)"
    by (cases "traverse_entries cfg ev d outp es ?st1")
  from traverse_grows(2) [of cfg ev d outp ?st1 es] te
  obtain evs where "trace st2 = trace ?st1 @ evs" by (auto simp: grows_def)
  then show ?thesis using nd te
    by (cases w) (auto simp: fs_readdir_def emit_def console_error_def)
qed

lemma expects_lift:
  assumes "alts \<in> set (expects cfg ev d outp e)" and "e \<noteq> Listed (d @ [n])"
  shows "alts \<in> set (expects cfg ev (d @ [n]) outp e)"
proof (cases e)
  case (Appended q r s)
  then show ?thesis using assms by (cases r) (auto split: if_splits)
qed (use assms in \<open>auto split: if_splits\<close>)

lemma closed_lift:
  assumes c: "closed cfg ev (d @ [n]) outp evs" and l: "Listed (d @ [n]) \<in> set evs"
    and x: "\<not> isExcluded cfg ev (d @ [n])" and r: "shouldRecurse cfg (d @ [n])"
  shows "closed cfg ev d outp (Visit (d @ [n]) True # evs)"
  unfolding closed_def
proof (intro ballI)
  fix e alts
  assume e: "e \<in> set (Visit (d @ [n]) True # evs)" and a: "alts \<in> set (expects cfg ev d outp e)"
  show "\<exists>x \<in> set alts. x \<in> set (Visit (d @ [n]) True # evs)"
  proof (cases "e = Visit (d @ [n]) True")
    case True
    then show ?thesis using a l x r by simp
  next
    case ne: False
    with e have ein: "e \<in> set evs" by simp
    show ?thesis
    proof (cases "e = Listed (d @ [n])")
      case True
      then show ?thesis using a by simp
    next
      case False
      with a have "alts \<in> set (expects cfg ev (d @ [n]) outp e)" by (rule expects_lift)
      with c ein have "\<exists>x \<in> set alts. x \<in> set evs" by (simp add: closed_def)
      then show ?thesis by auto
    qed
  qed
qed

lemma grows_closedI:
  "trace st' = trace st @ evs \<Longrightarrow> closed cfg ev d outp evs \<Longrightarrow> grows_closed cfg ev outp d st st'"
  by (auto simp: grows_closed_def)

lemma closed_visit_only:
  "expects cfg ev d outp (Visit p b) = [] \<Longrightarrow> closed cfg ev d outp [Visit p b]"
  by (simp add: closed_def del: expects.simps(1))

lemma closed_visit_placeholder:
  assumes "set (expects cfg ev d outp (Visit p b))
             \<subseteq> {[Appended outp (Placeholder p reason) txt, AppendFailed outp (Placeholder p reason)]}"
    and "isExcluded cfg ev p \<or> \<not> b"
  shows "closed cfg ev d outp [Visit p b, Appended outp (Placeholder p reason) txt, Stdout m]"
  unfolding closed_def
proof (intro ballI)
  fix e alts
  assume e: "e \<in> set [Visit p b, Appended outp (Placeholder p reason) txt, Stdout m]"
    and a: "alts \<in> set (expects cfg ev d outp e)"
  from e consider "e = Visit p b" | "e = Appended outp (Placeholder p reason) txt" | "e = Stdout m"
    by auto
  then show "\<exists>x\<in>set alts. x \<in> set [Visit p b, Appended outp (Placeholder p reason) txt, Stdout m]"
  proof cases
    case 1
    with a assms(1)
    have "alts = [Appended outp (Placeholder p reason) txt, AppendFailed outp (Placeholder p reason)]"
      by blast
    then show ?thesis by simp
  next
    case 2
    then show ?thesis using a assms(2) by (cases b) (auto split: if_splits)
  next
    case 3
    then show ?thesis using a by simp
  qed
qed

lemma closed_visit_failed:
  assumes "set (expects cfg ev d outp (Visit p b))
             \<subseteq> {[Appended outp (Placeholder p reason) txt, AppendFailed outp (Placeholder p reason)]}"
  shows "closed cfg ev d outp [Visit p b, AppendFailed outp (Placeholder p reason)]"
  unfolding closed_def
proof (intro ballI)
  fix e alts
  assume e: "e \<in> set [Visit p b, AppendFailed outp (Placeholder p reason)]"
    and a: "alts \<in> set (expects cfg ev d outp e)"
  from e consider "e = Visit p b" | "e = AppendFailed outp (Placeholder p reason)" by auto
  then show "\<exists>x\<in>set alts. x \<in> set [Visit p b, AppendFailed outp (Placeholder p reason)]"
  proof cases
    case 1
    with a assms(1)
    have "alts = [Appended outp (Placeholder p reason) txt, AppendFailed outp (Placeholder p reason)]"
      by blast
    then show ?thesis by simp
  next
    case 2
    then show ?thesis using a by simp
  qed
qed

lemma closed_visit_read:
  assumes "expects cfg ev d outp (Visit p False) = []" and "\<not> isExcluded cfg ev p"
  shows "closed cfg ev d outp
           [Visit p False, Read p (Some c), Appended outp (Processed p c) txt, Stdout m]"
    and "closed cfg ev d outp
           [Visit p False, Read p (Some c), AppendFailed outp (Processed p c), Stderr m' e]"
    and "closed cfg ev d outp [Visit p False, Read p None, Stderr m' e]"
  using assms unfolding closed_def by (simp_all del: expects.simps(1))

lemma step_placeholder:
  assumes "set (expects cfg ev d outp (Visit (d @ [n]) b))
             \<subseteq> {[Appended outp (Placeholder (d @ [n]) reason)
                      (record_text (cwd ev) (Placeholder (d @ [n]) reason)),
                    AppendFailed outp (Placeholder (d @ [n]) reason)]}"
    and "isExcluded cfg ev (d @ [n]) \<or> \<not> b"
  shows "grows_closed cfg ev outp d st
           (snd (logSkippedFile ev (d @ [n]) outp reason (emit (Visit (d @ [n]) b) st)))"
proof (cases "write_ok ev (attempts st)")
  case True
  show ?thesis
    by (rule grows_closedI [OF _ closed_visit_placeholder [OF assms(1,2)]])
       (simp add: trace_logSkippedFile emit_def True del: record_text.simps)
next
  case False
  show ?thesis
    by (rule grows_closedI [OF _ closed_visit_failed [OF assms(1)]])
       (simp add: trace_logSkippedFile emit_def False del: record_text.simps)
qed

lemma step_visit_only:
  assumes "expects cfg ev d outp (Visit (d @ [n]) b) = []"
  shows "grows_closed cfg ev outp d st (emit (Visit (d @ [n]) b) st)"
  by (rule grows_closedI [OF _ closed_visit_only [OF assms]]) (simp add: emit_def)

lemma step_processed:
  assumes "\<not> isExcluded cfg ev (d @ [n])" and "extname n \<in> set (includeExtensions cfg)"
  shows "grows_closed cfg ev outp d st
           (processFile ev (d @ [n]) outp nd (emit (Visit (d @ [n]) False) st))"
proof -
  let ?p = "d @ [n]"
  let ?st0 = "emit (Visit ?p False) st"
  have x: "expects cfg ev d outp (Visit ?p False) = []" using assms by simp
  have t0: "trace ?st0 = trace st @ [Visit ?p False]" by (simp add: emit_def)
  from trace_processFile [of ev ?p outp nd ?st0] show ?thesis
  proof (elim disjE exE)
    fix c
    assume "trace (processFile ev ?p outp nd ?st0) =
         trace ?st0 @ [Read ?p (Some c),
                     Appended outp (Processed ?p c) (record_text (cwd ev) (Processed ?p c)),
                     Stdout (''Processed file: '' @ relative (cwd ev) ?p)]"
    then show ?thesis
      by (intro grows_closedI [OF _ closed_visit_read(1) [OF x assms(1)]]) (simp add: t0)
  next
    fix c e
    assume "trace (processFile ev ?p outp nd ?st0) =
         trace ?st0 @ [Read ?p (Some c), AppendFailed outp (Processed ?p c),
                     Stderr (''Error processing file '' @ path_string ?p @ '':'') (Some e)]"
    then show ?thesis
      by (intro grows_closedI [OF _ closed_visit_read(2) [OF x assms(1)]]) (simp add: t0)
  next
    fix e
    assume "trace (processFile ev ?p outp nd ?st0) =
         trace ?st0 @ [Read ?p None,
                     Stderr (''Error processing file '' @ path_string ?p @ '':'') (Some e)]"
    then show ?thesis
      by (intro grows_closedI [OF _ closed_visit_read(3) [OF x assms(1)]]) (simp add: t0)
  qed
qed

lemma step_recursed:
  assumes x: "\<not> isExcluded cfg ev (d @ [n])" and sr: "shouldRecurse cfg (d @ [n])"
    and g: "grows_closed cfg ev outp (d @ [n]) (emit (Visit (d @ [n]) True) st)
              (traverseDirectory cfg ev (d @ [n]) outp nd (emit (Visit (d @ [n]) True) st))"
  shows "grows_closed cfg ev outp d st
           (traverseDirectory cfg ev (d @ [n]) outp nd (emit (Visit (d @ [n]) True) st))"
proof -
  let ?st0 = "emit (Visit (d @ [n]) True) st"
  let ?st1 = "traverseDirectory cfg ev (d @ [n]) outp nd ?st0"
  from g obtain evs where evs: "trace ?st1 = trace ?st0 @ evs" "closed cfg ev (d @ [n]) outp evs"
    by (auto simp: grows_closed_def)
  from trace_traverseDirectory_first [of cfg ev "d @ [n]" outp nd ?st0] evs(1)
  have "Listed (d @ [n]) \<in> set evs" by auto
  with evs(2) have "closed cfg ev d outp (Visit (d @ [n]) True # evs)"
    using x sr by (rule closed_lift)
  moreover have "trace ?st1 = trace st @ Visit (d @ [n]) True # evs"
    using evs(1) by (simp add: emit_def)
  ultimately show ?thesis by (rule grows_closedI [rotated])
qed

lemma step_listing:
  "grows_closed cfg ev outp d st (snd (fs_readdir d nd st))"
  by (rule grows_closedI [where evs="[Listed d]"])
     (auto simp: fs_readdir_def emit_def closed_def split: node.splits option.splits)

lemma step_stderr:
  "grows_closed cfg ev outp d st st' \<Longrightarrow> grows_closed cfg ev outp d st (console_error m e st')"
  by (rule grows_closed_trans, assumption, rule grows_closedI [where evs="[Stderr m e]"])
     (simp_all add: console_error_def emit_def closed_def)

lemma traverse_closed:
  "grows_closed cfg ev outp d st (traverseDirectory cfg ev d outp nd st)"
  "grows_closed cfg ev outp d st (snd (traverse_entries cfg ev d outp es st))"
proof -
  let ?R = "grows_closed cfg ev outp"
  have r: "\<And>d st. ?R d st st" by (rule grows_closed_refl)
  have t: "\<And>d a b c. ?R d a b \<Longrightarrow> ?R d b c \<Longrightarrow> ?R d a c" by (rule grows_closed_trans)
  have l: "?R d st (snd (fs_readdir d (Dir (Some es)) st))" for d es st
    by (rule step_listing)
  have u: "?R d st (console_error (''Error traversing directory '' @ path_string d @ '':'')
                    (Some ReaddirFailed) (snd (fs_readdir d nd st)))"
    if "\<forall>es. nd \<noteq> Dir (Some es)" for d nd st
    by (rule step_stderr [OF step_listing])
  have c: "?R d st
          (console_error (''Error traversing directory '' @ path_string d @ '':'') (Some e) st)"
    for d e st
    by (rule step_stderr [OF grows_closed_refl])
  have es: "?R d st (snd (logSkippedFile ev (d @ [n]) outp ''Excluded'' (emit (Visit (d @ [n]) b) st)))"
    if "isExcluded cfg ev (d @ [n])" and "showExcluded cfg" for d n b st
    by (rule step_placeholder) (use that in \<open>auto simp del: record_text.simps\<close>)
  have eh: "?R d st (emit (Visit (d @ [n]) b) st)"
    if "isExcluded cfg ev (d @ [n])" and "\<not> showExcluded cfg" for d n b st
    by (rule step_visit_only) (use that in simp)
  have ss: "?R d st (snd (logSkippedFile ev (d @ [n]) outp ''Skipped (non-matching extension)''
                         (emit (Visit (d @ [n]) False) st)))"
    if "\<not> isExcluded cfg ev (d @ [n])" and "extname n \<notin> set (includeExtensions cfg)"
      and "showSkipped cfg" for d n st
    by (rule step_placeholder) (use that in \<open>auto simp del: record_text.simps\<close>)
  have sh: "?R d st (emit (Visit (d @ [n]) False) st)"
    if "\<not> isExcluded cfg ev (d @ [n])" and "extname n \<notin> set (includeExtensions cfg)"
      and "\<not> showSkipped cfg" for d n st
    by (rule step_visit_only) (use that in simp)
  have p: "?R d st (processFile ev (d @ [n]) outp (File c) (emit (Visit (d @ [n]) False) st))"
    if "\<not> isExcluded cfg ev (d @ [n])" and "extname n \<in> set (includeExtensions cfg)" for d n c st
    using that by (rule step_processed)
  have rj: "?R d st (emit (Visit (d @ [n]) True) st)"
    if "\<not> isExcluded cfg ev (d @ [n])" and "\<not> shouldRecurse cfg (d @ [n])" for d n st
    by (rule step_visit_only) (use that in simp)
  have rc: "?R d st (traverseDirectory cfg ev (d @ [n]) outp (Dir l) (emit (Visit (d @ [n]) True) st))"
    if "\<not> isExcluded cfg ev (d @ [n])" and "shouldRecurse cfg (d @ [n])"
      and "?R (d @ [n]) (emit (Visit (d @ [n]) True) st)
            (traverseDirectory cfg ev (d @ [n]) outp (Dir l) (emit (Visit (d @ [n]) True) st))"
    for d n l st
    using that by (rule step_recursed)
  show "grows_closed cfg ev outp d st (traverseDirectory cfg ev d outp nd st)"
    by (rule traverse_rel(1) [where R="?R", OF r t u l c es eh ss sh p rj rc])
  show "grows_closed cfg ev outp d st (snd (traverse_entries cfg ev d outp es st))"
    by (rule traverse_rel(2) [where R="?R", OF r t u l c es eh ss sh p rj rc])
qed


lemma run_inaccessible:
  assumes "lookup ev (path_resolve (cwd ev) (scanDir cfg)) = None"
  shows "run cfg ev fs =
           (1, \<lparr>files = fs, attempts = 0,
                trace = [Stderr (''Error: Directory '' @ [CHR 0x22]
                                  @ path_string (path_resolve (cwd ev) (scanDir cfg)) @ [CHR 0x22]
                                  @ '' does not exist or is inaccessible.'') None]\<rparr>)"
  using assms by (simp add: run_def main_def init_state_def console_error_def emit_def)

lemma run_unwritable:
  assumes "lookup ev (path_resolve (cwd ev) (scanDir cfg)) = Some nd" and "\<not> write_ok ev 0"
  shows "run cfg ev fs =
           (0, \<lparr>files = fs, attempts = 1, trace = [Stderr [] (Some WriteFailed)]\<rparr>)"
  using assms
  by (simp add: run_def main_def init_state_def console_error_def emit_def fs_writeFile_def)

lemma run_ok:
  assumes nd: "lookup ev (path_resolve (cwd ev) (scanDir cfg)) = Some nd" and w: "write_ok ev 0"
  defines "root \<equiv> path_resolve (cwd ev) (scanDir cfg)"
    and "outp \<equiv> path_join (cwd ev) (outputFile cfg)"
  shows "\<exists>evs. trace (snd (run cfg ev fs)) =
                 Written outp [] # Stdout (''Traversing directory: '' @ path_string root) # evs
                   @ [Stdout (''Done. All file contents written to: '' @ path_string outp)]
              \<and> list_all (ok_event cfg ev root outp) evs
              \<and> closed cfg ev root outp evs
              \<and> files (snd (run cfg ev fs)) outp = Some (concat (appended_to outp evs))
              \<and> (\<forall>p. p \<noteq> outp \<longrightarrow> files (snd (run cfg ev fs)) p = fs p)
              \<and> fst (run cfg ev fs) = 0"
proof -
  let ?st2 = "\<lparr>files = fs(outp \<mapsto> []), attempts = Suc 0,
               trace = [Written outp [], Stdout (''Traversing directory: '' @ path_string root)]\<rparr>"
  let ?st3 = "traverseDirectory cfg ev root outp nd ?st2"
  have run: "run cfg ev fs =
      (0, console_log (''Done. All file contents written to: '' @ path_string outp) ?st3)"
    using nd w unfolding root_def outp_def
    by (simp add: run_def main_def init_state_def console_log_def emit_def fs_writeFile_def Let_def)
  from traverse_grows(1) [of cfg ev root outp ?st2 nd]
  obtain evs where evs: "trace ?st3 = trace ?st2 @ evs" "list_all (ok_event cfg ev root outp) evs"
    by (auto simp: grows_def)
  from traverse_closed(1) [of cfg ev outp root ?st2 nd] evs(1)
  have cl: "closed cfg ev root outp evs" by (auto simp: grows_closed_def)
  from traverse_writes_only(1) [of outp ?st2 cfg ev root nd] evs(1)
  have fo: "\<forall>p. p \<noteq> outp \<longrightarrow> files ?st3 p = fs p"
    and fc: "files ?st3 outp = Some (concat (appended_to outp evs))"
    by (auto simp: writes_only_def)
  show ?thesis
    by (rule exI [of _ evs]) (use evs cl fo fc in \<open>simp add: run console_log_def emit_def\<close>)
qed


lemma run_event:
  assumes "e \<in> set (trace (snd (run cfg ev fs)))"
  shows "e = Written (path_join (cwd ev) (outputFile cfg)) []
         \<or> ok_event cfg ev (path_resolve (cwd ev) (scanDir cfg)) (path_join (cwd ev) (outputFile cfg)) e"
proof (cases "lookup ev (path_resolve (cwd ev) (scanDir cfg))")
  case None
  then show ?thesis using assms by (simp add: run_inaccessible)
next
  case (Some nd)
  show ?thesis
  proof (cases "write_ok ev 0")
    case False
    then show ?thesis using assms Some by (simp add: run_unwritable)
  next
    case True
    from run_ok [OF Some True, where fs=fs] assms show ?thesis
      by (auto simp: list_all_iff)
  qed
qed

lemma run_closed:
  "closed cfg ev (path_resolve (cwd ev) (scanDir cfg)) (path_join (cwd ev) (outputFile cfg))
     (trace (snd (run cfg ev fs)))"
proof (cases "lookup ev (path_resolve (cwd ev) (scanDir cfg))")
  case None
  then show ?thesis by (simp add: run_inaccessible closed_def)
next
  case (Some nd)
  show ?thesis
  proof (cases "write_ok ev 0")
    case False
    then show ?thesis using Some by (simp add: run_unwritable closed_def)
  next
    case True
    from run_ok [OF Some True, where fs=fs] obtain evs m1 m2 where
      t: "trace (snd (run cfg ev fs)) =
            [Written (path_join (cwd ev) (outputFile cfg)) [], Stdout m1] @ evs @ [Stdout m2]"
      and c: "closed cfg ev (path_resolve (cwd ev) (scanDir cfg)) (path_join (cwd ev) (outputFile cfg)) evs"
      by auto
    have "closed cfg ev (path_resolve (cwd ev) (scanDir cfg)) (path_join (cwd ev) (outputFile cfg)) xs"
      if "xs = [Written (path_join (cwd ev) (outputFile cfg)) [], Stdout m1] \<or> xs = [Stdout m2]" for xs
      using that by (auto simp: closed_def)
    then show ?thesis unfolding t by (intro closed_append c) simp_all
  qed
qed

lemma ok_event_below:
  assumes "ok_event cfg ev d outp e" and "event_path e = Some q"
  shows "prefix d q" and "admitted cfg ev d q"
  using assms by (cases e; simp add: strict_prefix_def)+

lemma ok_event_ancestor:
  assumes "ok_event cfg ev d outp e" and "event_path e = Some q"
    and "strict_prefix d p" and "strict_prefix p q"
  shows "\<not> isExcluded cfg ev p" and "shouldRecurse cfg p"
  using ok_event_below(2) [OF assms(1,2)] assms(3,4) by (auto simp: admitted_def)

lemma run_visit_below:
  assumes "Visit p b \<in> set (trace (snd (run cfg ev fs)))"
  shows "strict_prefix (path_resolve (cwd ev) (scanDir cfg)) p"
  using run_event [OF assms] by simp

lemma run_expects_alt:
  assumes "e \<in> set (trace (snd (run cfg ev fs)))"
    and "alts \<in> set (expects cfg ev (path_resolve (cwd ev) (scanDir cfg))
                       (path_join (cwd ev) (outputFile cfg)) e)"
  shows "\<exists>x \<in> set alts. x \<in> set (trace (snd (run cfg ev fs)))"
  using run_closed [of cfg ev fs] assms unfolding closed_def by blast

lemma run_expects:
  assumes "e \<in> set (trace (snd (run cfg ev fs)))"
    and "expects cfg ev (path_resolve (cwd ev) (scanDir cfg)) (path_join (cwd ev) (outputFile cfg)) e = [[x]]"
  shows "x \<in> set (trace (snd (run cfg ev fs)))"
  using run_expects_alt [OF assms(1), of "[x]"] assms(2) by simp


section \<open>Whole runs\<close>

lemma emitted_iff: "r \<in> set (emitted evs) \<longleftrightarrow> (\<exists>out s. Appended out r s \<in> set evs)"
  by (induction evs rule: emitted.induct) auto

lemma visited_iff: "p \<in> set (visited evs) \<longleftrightarrow> (\<exists>b. Visit p b \<in> set evs)"
  by (induction evs rule: visited.induct) auto

lemma split_sep_plain: "CHR ''/'' \<notin> set n \<Longrightarrow> split_sep n = [n]"
  by (induction n) auto

lemma path_join_plain:
  "n \<noteq> [] \<Longrightarrow> n \<noteq> ''.'' \<Longrightarrow> n \<noteq> ''..'' \<Longrightarrow> CHR ''/'' \<notin> set n \<Longrightarrow> path_join d n = d @ [n]"
  by (simp add: path_join_def split_sep_plain norm_step_def)

lemma shouldRecurse_iff:
  "shouldRecurse cfg p \<longleftrightarrow>
     includeDirs cfg = [] \<or> (\<exists>d \<in> set (includeDirs cfg). \<exists>pre suf. path_string p = pre @ d @ suf)"
  by (simp add: shouldRecurse_def list_ex_iff str_includes_iff)

lemma ok_event_write:
  "ok_event cfg ev d outp e \<Longrightarrow> is_write e \<Longrightarrow> \<exists>r s. e = Appended outp r s"
  by (cases e) (auto simp: is_write_def)

lemma filter_writes_ok:
  "list_all (ok_event cfg ev d outp) evs \<Longrightarrow>
     \<forall>w \<in> set (filter is_write evs). \<exists>r s. w = Appended outp r s"
  by (auto simp: list_all_iff dest: ok_event_write)

lemma run_writes:
  "if lookup ev (path_resolve (cwd ev) (scanDir cfg)) \<noteq> None \<and> write_ok ev 0
   then \<exists>ws. filter is_write (trace (snd (run cfg ev fs))) =
               Written (path_join (cwd ev) (outputFile cfg)) [] # ws
             \<and> (\<forall>w \<in> set ws. \<exists>r s. w = Appended (path_join (cwd ev) (outputFile cfg)) r s)
   else filter is_write (trace (snd (run cfg ev fs))) = []"
proof (cases "lookup ev (path_resolve (cwd ev) (scanDir cfg))")
  case None
  then show ?thesis by (simp add: run_inaccessible is_write_def)
next
  case (Some nd)
  show ?thesis
  proof (cases "write_ok ev 0")
    case False
    then show ?thesis using Some by (simp add: run_unwritable is_write_def)
  next
    case True
    from run_ok [OF Some True, where fs=fs] obtain evs m1 m2 where
      t: "trace (snd (run cfg ev fs)) =
            Written (path_join (cwd ev) (outputFile cfg)) [] # Stdout m1 # evs @ [Stdout m2]"
      and o: "list_all (ok_event cfg ev (path_resolve (cwd ev) (scanDir cfg))
                (path_join (cwd ev) (outputFile cfg))) evs"
      by auto
    show ?thesis using Some True filter_writes_ok [OF o] by (simp add: t is_write_def)
  qed
qed

lemma run_only_outp:
  "p \<noteq> path_join (cwd ev) (outputFile cfg) \<Longrightarrow> files (snd (run cfg ev fs)) p = fs p"
proof (cases "lookup ev (path_resolve (cwd ev) (scanDir cfg))")
  case None
  then show ?thesis by (simp add: run_inaccessible)
next
  case (Some nd)
  assume p: "p \<noteq> path_join (cwd ev) (outputFile cfg)"
  show ?thesis
  proof (cases "write_ok ev 0")
    case False
    then show ?thesis using Some by (simp add: run_unwritable)
  next
    case True
    from run_ok [OF Some True, where fs=fs] p show ?thesis by auto
  qed
qed

lemma run_stale_irrelevant:
  assumes "lookup ev (path_resolve (cwd ev) (scanDir cfg)) = Some nd" and "write_ok ev 0"
    and "fs'(path_join (cwd ev) (outputFile cfg) \<mapsto> []) = fs(path_join (cwd ev) (outputFile cfg) \<mapsto> [])"
  shows "run cfg ev fs' = run cfg ev fs"
  using assms by (simp add: run_def main_def init_state_def fs_writeFile_def Let_def)

lemma run_twice:
  "files (snd (run cfg ev (files (snd (run cfg ev fs))))) = files (snd (run cfg ev fs))"
proof (cases "lookup ev (path_resolve (cwd ev) (scanDir cfg))")
  case None
  then show ?thesis by (simp add: run_inaccessible)
next
  case (Some nd)
  show ?thesis
  proof (cases "write_ok ev 0")
    case False
    then show ?thesis using Some by (simp add: run_unwritable)
  next
    case True
    have "(files (snd (run cfg ev fs)))(path_join (cwd ev) (outputFile cfg) \<mapsto> [])
            = fs(path_join (cwd ev) (outputFile cfg) \<mapsto> [])"
      using run_only_outp [of _ ev cfg fs] by (auto simp: fun_eq_iff)
    from run_stale_irrelevant [OF Some True this] show ?thesis by simp
  qed
qed

lemma run_created:
  assumes "lookup ev (path_resolve (cwd ev) (scanDir cfg)) \<noteq> None" and "write_ok ev 0"
  shows "files (snd (run cfg ev fs)) (path_join (cwd ev) (outputFile cfg)) \<noteq> None"
proof -
  from assms(1) obtain nd where "lookup ev (path_resolve (cwd ev) (scanDir cfg)) = Some nd" by blast
  from run_ok [OF this assms(2), where fs=fs] show ?thesis by auto
qed

text \<open>
  What the history of a run holds about an excluded entry below the scan root and about
  everything below that entry.
\<close>

lemma excluded_events:
  assumes "isExcluded cfg ev p"
    and "strict_prefix (path_resolve (cwd ev) (scanDir cfg)) p"
    and e: "e \<in> set (trace (snd (run cfg ev fs)))" and q: "event_path e = Some q" "prefix p q"
  shows "(\<exists>b. e = Visit p b)
       \<or> (showExcluded cfg \<and> (\<exists>out s. e = Appended out (Placeholder p ''Excluded'') s))"
proof -
  let ?root = "path_resolve (cwd ev) (scanDir cfg)"
  let ?outp = "path_join (cwd ev) (outputFile cfg)"
  from q have "e \<noteq> Written ?outp []" by auto
  with run_event [OF e] have ok: "ok_event cfg ev ?root ?outp e" by simp
  have qp: "q = p"
  proof (rule ccontr)
    assume "q \<noteq> p"
    with q have "strict_prefix p q" by (simp add: strict_prefix_def)
    from ok_event_ancestor(1) [OF ok q(1) assms(2) this] assms(1) show False by simp
  qed
  show ?thesis
  proof (cases e)
    case (Visit p' b)
    then show ?thesis using q qp by simp
  next
    case (Listed p')
    then show ?thesis using ok q qp assms(1,2) by (auto simp: strict_prefix_def)
  next
    case (Read p')
    then show ?thesis using ok q qp assms(1) by auto
  next
    case (Appended out r s)
    then show ?thesis using ok q qp assms(1) by (cases r) auto
  qed (use q in auto)
qed

lemma excluded_shown:
  assumes "isExcluded cfg ev p" and "Visit p b \<in> set (trace (snd (run cfg ev fs)))"
    and "AppendFailed (path_join (cwd ev) (outputFile cfg)) (Placeholder p ''Excluded'')
           \<notin> set (trace (snd (run cfg ev fs)))"
    and "showExcluded cfg"
  shows "Placeholder p ''Excluded'' \<in> set (emitted (trace (snd (run cfg ev fs))))"
proof -
  have "[Appended (path_join (cwd ev) (outputFile cfg)) (Placeholder p ''Excluded'')
            (record_text (cwd ev) (Placeholder p ''Excluded'')),
         AppendFailed (path_join (cwd ev) (outputFile cfg)) (Placeholder p ''Excluded'')]
        \<in> set (expects cfg ev (path_resolve (cwd ev) (scanDir cfg))
                  (path_join (cwd ev) (outputFile cfg)) (Visit p b))"
    using assms(1,4) by (simp del: record_text.simps)
  from run_expects_alt [OF assms(2) this] assms(3) show ?thesis
    by (auto simp: emitted_iff simp del: record_text.simps)
qed

text \<open>The same for a directory the loop took and did not exclude.\<close>

lemma listed_iff:
  assumes "Visit p True \<in> set (trace (snd (run cfg ev fs)))" and "\<not> isExcluded cfg ev p"
  shows "Listed p \<in> set (trace (snd (run cfg ev fs))) \<longleftrightarrow> shouldRecurse cfg p"
proof
  assume "Listed p \<in> set (trace (snd (run cfg ev fs)))"
  from run_event [OF this] run_visit_below [OF assms(1)] show "shouldRecurse cfg p"
    by (auto simp: strict_prefix_def)
next
  assume "shouldRecurse cfg p"
  then have "expects cfg ev (path_resolve (cwd ev) (scanDir cfg))
               (path_join (cwd ev) (outputFile cfg)) (Visit p True) = [[Listed p]]"
    using assms(2) by simp
  from run_expects [OF assms(1) this] show "Listed p \<in> set (trace (snd (run cfg ev fs)))" .
qed

lemma rejected_events:
  assumes v: "Visit p True \<in> set (trace (snd (run cfg ev fs)))" and x: "\<not> isExcluded cfg ev p"
    and n: "Listed p \<notin> set (trace (snd (run cfg ev fs)))"
           "Visit p False \<notin> set (trace (snd (run cfg ev fs)))"
    and e: "e \<in> set (trace (snd (run cfg ev fs)))" and q: "event_path e = Some q" "prefix p q"
  shows "e = Visit p True"
proof -
  let ?root = "path_resolve (cwd ev) (scanDir cfg)"
  let ?outp = "path_join (cwd ev) (outputFile cfg)"
  have below: "strict_prefix ?root p" using v by (rule run_visit_below)
  from q have "e \<noteq> Written ?outp []" by auto
  with run_event [OF e] have ok: "ok_event cfg ev ?root ?outp e" by simp
  have qp: "q = p"
  proof (rule ccontr)
    assume "q \<noteq> p"
    with q have "strict_prefix p q" by (simp add: strict_prefix_def)
    from ok_event_ancestor(2) [OF ok q(1) below this] listed_iff [OF v x] n(1) show False by simp
  qed
  show ?thesis
  proof (cases e)
    case (Visit p' b)
    then show ?thesis using q qp e n by (cases b) auto
  next
    case (Listed p')
    then show ?thesis using q qp e n by auto
  next
    case (Read p')
    then have "expects cfg ev ?root ?outp e = [[Visit p False]]" using q qp by simp
    from run_expects [OF e this] n show ?thesis by simp
  next
    case (Appended out r s)
    then have "[Visit p False] \<in> set (expects cfg ev ?root ?outp e)"
      using q qp x by (cases r) auto
    from run_expects_alt [OF e this] n show ?thesis by simp
  qed (use q in auto)
qed

text \<open>And for a file whose extension is not among the included ones.\<close>

lemma unmatched_record:
  assumes "\<not> isExcluded cfg ev p" and "extname (last p) \<notin> set (includeExtensions cfg)"
    and "r \<in> set (emitted (trace (snd (run cfg ev fs))))" and "record_path r = p"
  shows "showSkipped cfg \<and> r = Placeholder p ''Skipped (non-matching extension)''"
proof -
  from assms(3) obtain out s where "Appended out r s \<in> set (trace (snd (run cfg ev fs)))"
    by (auto simp: emitted_iff)
  from run_event [OF this] assms(1,2,4) show ?thesis by (cases r) auto
qed

lemma unmatched_shown:
  assumes "Visit p False \<in> set (trace (snd (run cfg ev fs)))"
    and "\<not> isExcluded cfg ev p" and "extname (last p) \<notin> set (includeExtensions cfg)"
    and "AppendFailed (path_join (cwd ev) (outputFile cfg))
           (Placeholder p ''Skipped (non-matching extension)'')
           \<notin> set (trace (snd (run cfg ev fs)))"
    and "showSkipped cfg"
  shows "Placeholder p ''Skipped (non-matching extension)''
           \<in> set (emitted (trace (snd (run cfg ev fs))))"
proof -
  have "[Appended (path_join (cwd ev) (outputFile cfg))
            (Placeholder p ''Skipped (non-matching extension)'')
            (record_text (cwd ev) (Placeholder p ''Skipped (non-matching extension)'')),
         AppendFailed (path_join (cwd ev) (outputFile cfg))
            (Placeholder p ''Skipped (non-matching extension)'')]
        \<in> set (expects cfg ev (path_resolve (cwd ev) (scanDir cfg))
                  (path_join (cwd ev) (outputFile cfg)) (Visit p False))"
    using assms(2,3,5) by (simp del: record_text.simps)
  from run_expects_alt [OF assms(1) this] assms(4) show ?thesis
    by (auto simp: emitted_iff simp del: record_text.simps)
qed

text \<open>
  A directory the loop took and did not exclude is listed exactly when \<open>includeDirs\<close> is
  empty or one of its members occurs in the string of the directory's absolute path, the
  argument of the test of line 103. When it is not listed (and no entry of the same path is
  taken as a file), the history holds nothing about it or anything below it but the loop
  taking it.
\<close>

lemma recursion_follows_full_path:
  assumes "Visit p True \<in> set (trace (snd (run cfg ev fs)))" and "\<not> isExcluded cfg ev p"
  shows "(Listed p \<in> set (trace (snd (run cfg ev fs))) \<longleftrightarrow>
            includeDirs cfg = []
            \<or> (\<exists>d \<in> set (includeDirs cfg). \<exists>pre suf. path_string p = pre @ d @ suf))
       \<and> (Listed p \<notin> set (trace (snd (run cfg ev fs)))
            \<and> Visit p False \<notin> set (trace (snd (run cfg ev fs))) \<longrightarrow>
            (\<forall>q. prefix p q \<longrightarrow>
                  (\<forall>c. Read q c \<notin> set (trace (snd (run cfg ev fs))))
                  \<and> Listed q \<notin> set (trace (snd (run cfg ev fs))))
            \<and> (\<forall>q. strict_prefix p q \<longrightarrow> q \<notin> set (visited (trace (snd (run cfg ev fs)))))
            \<and> (\<forall>r \<in> set (emitted (trace (snd (run cfg ev fs)))). \<not> prefix p (record_path r)))"
proof (intro conjI impI)
  let ?T = "set (trace (snd (run cfg ev fs)))"
  show "Listed p \<in> ?T \<longleftrightarrow>
          includeDirs cfg = []
          \<or> (\<exists>d \<in> set (includeDirs cfg). \<exists>pre suf. path_string p = pre @ d @ suf)"
    using listed_iff [OF assms] by (simp add: shouldRecurse_iff)
  assume n: "Listed p \<notin> ?T \<and> Visit p False \<notin> ?T"
  note rj = rejected_events [OF assms]
  have only: "e = Visit p True" if "e \<in> ?T" and "event_path e = Some q" and "prefix p q" for e q
    using n that by (intro rj) simp_all
  show "\<forall>q. prefix p q \<longrightarrow> (\<forall>c. Read q c \<notin> ?T) \<and> Listed q \<notin> ?T"
  proof (intro allI impI conjI)
    fix q c assume q: "prefix p q"
    show "Read q c \<notin> ?T" using q only [of "Read q c" q] by auto
    show "Listed q \<notin> ?T" using q only [of "Listed q" q] by auto
  qed
  show "\<forall>q. strict_prefix p q \<longrightarrow> q \<notin> set (visited (trace (snd (run cfg ev fs))))"
  proof (intro allI impI)
    fix q assume q: "strict_prefix p q"
    have "Visit q b \<notin> ?T" for b
      using q only [of "Visit q b" q] by (auto simp: strict_prefix_def)
    then show "q \<notin> set (visited (trace (snd (run cfg ev fs))))" by (auto simp: visited_iff)
  qed
  show "\<forall>r \<in> set (emitted (trace (snd (run cfg ev fs)))). \<not> prefix p (record_path r)"
  proof (intro ballI notI)
    fix r assume "r \<in> set (emitted (trace (snd (run cfg ev fs))))" and pr: "prefix p (record_path r)"
    then obtain out s where "Appended out r s \<in> ?T" by (auto simp: emitted_iff)
    from only [OF this, of "record_path r"] pr show False by simp
  qed
qed

text \<open>Where a record comes from: the entry the loop took, and the read that gave its content.\<close>

lemma processed_provenance:
  assumes "Appended out (Processed p c) s \<in> set (trace (snd (run cfg ev fs)))"
  shows "Visit p False \<in> set (trace (snd (run cfg ev fs)))"
    and "Read p (Some c) \<in> set (trace (snd (run cfg ev fs)))"
  using run_expects_alt [OF assms, of "[Visit p False]"]
    run_expects_alt [OF assms, of "[Read p (Some c)]"] by simp_all

lemma placeholder_provenance:
  assumes "Appended out (Placeholder p reason) s \<in> set (trace (snd (run cfg ev fs)))"
  shows "p \<in> set (visited (trace (snd (run cfg ev fs))))"
proof (cases "isExcluded cfg ev p")
  case True
  with run_expects_alt [OF assms, of "[Visit p True, Visit p False]"] show ?thesis
    by (auto simp: visited_iff)
next
  case False
  with run_expects_alt [OF assms, of "[Visit p False]"] show ?thesis
    by (auto simp: visited_iff)
qed



section \<open>Example runs, evaluated\<close>

lemmas eval_defs = run_def main_def init_state_def fs_writeFile_def fs_appendFile_def fs_readdir_def
  fs_readFile_def processFile_def logSkippedFile_def console_log_def console_error_def emit_def
  isExcluded_def shouldRecurse_def relative_def basename_def extname_def path_resolve_def
  path_join_def norm_step_def path_string_def Let_def

lemmas demo_defs = defaultConfig_def project_env_def project_tree_def flaky_env_def denied_env_def late_env_def nope_config_def
  include_config_def two_dirs_tree_def plain_env_def nested_env_def broken_tree_def broken_env_def
  elsewhere_config_def elsewhere_env_def

lemma project_trace:
  "trace (snd (run defaultConfig project_env Map.empty)) =
    [Written [''home'', ''u'', ''output.sick''] [],
     Stdout ''Traversing directory: /home/u'',
     Listed [''home'', ''u''],
     Visit [''home'', ''u'', ''node_modules''] True,
     Appended [''home'', ''u'', ''output.sick'']
       (Placeholder [''home'', ''u'', ''node_modules''] ''Excluded'')
       ''\<newline>\<newline>--- File: node_modules ---\<newline>(Excluded)\<newline>'',
     Stdout ''Skipped file: node_modules (Excluded)'',
     Visit [''home'', ''u'', ''README.md''] False,
     Appended [''home'', ''u'', ''output.sick'']
       (Placeholder [''home'', ''u'', ''README.md''] ''Skipped (non-matching extension)'')
       ''\<newline>\<newline>--- File: README.md ---\<newline>(Skipped (non-matching extension))\<newline>'',
     Stdout ''Skipped file: README.md (Skipped (non-matching extension))'',
     Visit [''home'', ''u'', ''src''] True,
     Listed [''home'', ''u'', ''src''],
     Visit [''home'', ''u'', ''src'', ''a.js''] False,
     Read [''home'', ''u'', ''src'', ''a.js''] (Some ''let a = 1;''),
     Appended [''home'', ''u'', ''output.sick'']
       (Processed [''home'', ''u'', ''src'', ''a.js''] ''let a = 1;'')
       ''\<newline>\<newline>--- File: src/a.js ---\<newline>\<newline>let a = 1;\<newline>'',
     Stdout ''Processed file: src/a.js'',
     Visit [''home'', ''u'', ''output.sick''] False,
     Appended [''home'', ''u'', ''output.sick'']
       (Placeholder [''home'', ''u'', ''output.sick''] ''Skipped (non-matching extension)'')
       ''\<newline>\<newline>--- File: output.sick ---\<newline>(Skipped (non-matching extension))\<newline>'',
     Stdout ''Skipped file: output.sick (Skipped (non-matching extension))'',
     Stdout ''Done. All file contents written to: /home/u/output.sick'']"
  by (simp add: eval_defs demo_defs)

lemma flaky_trace:
  "trace (snd (run defaultConfig flaky_env Map.empty)) =
    [Written [''home'', ''u'', ''output.sick''] [],
     Stdout ''Traversing directory: /home/u'',
     Listed [''home'', ''u''],
     Visit [''home'', ''u'', ''node_modules''] True,
     Appended [''home'', ''u'', ''output.sick'']
       (Placeholder [''home'', ''u'', ''node_modules''] ''Excluded'')
       ''\<newline>\<newline>--- File: node_modules ---\<newline>(Excluded)\<newline>'',
     Stdout ''Skipped file: node_modules (Excluded)'',
     Visit [''home'', ''u'', ''README.md''] False,
     AppendFailed [''home'', ''u'', ''output.sick'']
       (Placeholder [''home'', ''u'', ''README.md''] ''Skipped (non-matching extension)''),
     Stderr ''Error traversing directory /home/u:'' (Some WriteFailed),
     Stdout ''Done. All file contents written to: /home/u/output.sick'']"
  by (simp add: eval_defs demo_defs)

lemma denied_trace:
  "trace (snd (run defaultConfig denied_env Map.empty)) =
    [Written [''home'', ''u'', ''output.sick''] [],
     Stdout ''Traversing directory: /home/u'',
     Listed [''home'', ''u''],
     Visit [''home'', ''u'', ''node_modules''] True,
     AppendFailed [''home'', ''u'', ''output.sick'']
       (Placeholder [''home'', ''u'', ''node_modules''] ''Excluded''),
     Stderr ''Error traversing directory /home/u:'' (Some WriteFailed),
     Stdout ''Done. All file contents written to: /home/u/output.sick'']"
  by (simp add: eval_defs demo_defs)

lemma late_trace:
  "trace (snd (run defaultConfig late_env Map.empty)) =
    [Written [''home'', ''u'', ''output.sick''] [],
     Stdout ''Traversing directory: /home/u'',
     Listed [''home'', ''u''],
     Visit [''home'', ''u'', ''node_modules''] True,
     Appended [''home'', ''u'', ''output.sick'']
       (Placeholder [''home'', ''u'', ''node_modules''] ''Excluded'')
       ''\<newline>\<newline>--- File: node_modules ---\<newline>(Excluded)\<newline>'',
     Stdout ''Skipped file: node_modules (Excluded)'',
     Visit [''home'', ''u'', ''README.md''] False,
     Appended [''home'', ''u'', ''output.sick'']
       (Placeholder [''home'', ''u'', ''README.md''] ''Skipped (non-matching extension)'')
       ''\<newline>\<newline>--- File: README.md ---\<newline>(Skipped (non-matching extension))\<newline>'',
     Stdout ''Skipped file: README.md (Skipped (non-matching extension))'',
     Visit [''home'', ''u'', ''src''] True,
     Listed [''home'', ''u'', ''src''],
     Visit [''home'', ''u'', ''src'', ''a.js''] False,
     Read [''home'', ''u'', ''src'', ''a.js''] (Some ''let a = 1;''),
     AppendFailed [''home'', ''u'', ''output.sick'']
       (Processed [''home'', ''u'', ''src'', ''a.js''] ''let a = 1;''),
     Stderr ''Error processing file /home/u/src/a.js:'' (Some WriteFailed),
     Visit [''home'', ''u'', ''output.sick''] False,
     Appended [''home'', ''u'', ''output.sick'']
       (Placeholder [''home'', ''u'', ''output.sick''] ''Skipped (non-matching extension)'')
       ''\<newline>\<newline>--- File: output.sick ---\<newline>(Skipped (non-matching extension))\<newline>'',
     Stdout ''Skipped file: output.sick (Skipped (non-matching extension))'',
     Stdout ''Done. All file contents written to: /home/u/output.sick'']"
  by (simp add: eval_defs demo_defs)

lemma plain_trace:
  "trace (snd (run include_config plain_env Map.empty)) =
    [Written [''home'', ''u'', ''output.sick''] [],
     Stdout ''Traversing directory: /home/u'',
     Listed [''home'', ''u''],
     Visit [''home'', ''u'', ''src''] True,
     Listed [''home'', ''u'', ''src''],
     Visit [''home'', ''u'', ''src'', ''x.js''] False,
     Read [''home'', ''u'', ''src'', ''x.js''] (Some ''X''),
     Appended [''home'', ''u'', ''output.sick'']
       (Processed [''home'', ''u'', ''src'', ''x.js''] ''X'')
       ''\<newline>\<newline>--- File: src/x.js ---\<newline>\<newline>X\<newline>'',
     Stdout ''Processed file: src/x.js'',
     Visit [''home'', ''u'', ''lib''] True,
     Visit [''home'', ''u'', ''output.sick''] False,
     Appended [''home'', ''u'', ''output.sick'']
       (Placeholder [''home'', ''u'', ''output.sick''] ''Skipped (non-matching extension)'')
       ''\<newline>\<newline>--- File: output.sick ---\<newline>(Skipped (non-matching extension))\<newline>'',
     Stdout ''Skipped file: output.sick (Skipped (non-matching extension))'',
     Stdout ''Done. All file contents written to: /home/u/output.sick'']"
  by (simp add: eval_defs demo_defs)

lemma nested_trace:
  "trace (snd (run include_config nested_env Map.empty)) =
    [Written [''home'', ''src'', ''proj'', ''output.sick''] [],
     Stdout ''Traversing directory: /home/src/proj'',
     Listed [''home'', ''src'', ''proj''],
     Visit [''home'', ''src'', ''proj'', ''src''] True,
     Listed [''home'', ''src'', ''proj'', ''src''],
     Visit [''home'', ''src'', ''proj'', ''src'', ''x.js''] False,
     Read [''home'', ''src'', ''proj'', ''src'', ''x.js''] (Some ''X''),
     Appended [''home'', ''src'', ''proj'', ''output.sick'']
       (Processed [''home'', ''src'', ''proj'', ''src'', ''x.js''] ''X'')
       ''\<newline>\<newline>--- File: src/x.js ---\<newline>\<newline>X\<newline>'',
     Stdout ''Processed file: src/x.js'',
     Visit [''home'', ''src'', ''proj'', ''lib''] True,
     Listed [''home'', ''src'', ''proj'', ''lib''],
     Visit [''home'', ''src'', ''proj'', ''lib'', ''y.js''] False,
     Read [''home'', ''src'', ''proj'', ''lib'', ''y.js''] (Some ''Y''),
     Appended [''home'', ''src'', ''proj'', ''output.sick'']
       (Processed [''home'', ''src'', ''proj'', ''lib'', ''y.js''] ''Y'')
       ''\<newline>\<newline>--- File: lib/y.js ---\<newline>\<newline>Y\<newline>'',
     Stdout ''Processed file: lib/y.js'',
     Visit [''home'', ''src'', ''proj'', ''lib'', ''README.md''] False,
     Appended [''home'', ''src'', ''proj'', ''output.sick'']
       (Placeholder [''home'', ''src'', ''proj'', ''lib'', ''README.md'']
          ''Skipped (non-matching extension)'')
       ''\<newline>\<newline>--- File: lib/README.md ---\<newline>(Skipped (non-matching extension))\<newline>'',
     Stdout ''Skipped file: lib/README.md (Skipped (non-matching extension))'',
     Visit [''home'', ''src'', ''proj'', ''output.sick''] False,
     Appended [''home'', ''src'', ''proj'', ''output.sick'']
       (Placeholder [''home'', ''src'', ''proj'', ''output.sick''] ''Skipped (non-matching extension)'')
       ''\<newline>\<newline>--- File: output.sick ---\<newline>(Skipped (non-matching extension))\<newline>'',
     Stdout ''Skipped file: output.sick (Skipped (non-matching extension))'',
     Stdout ''Done. All file contents written to: /home/src/proj/output.sick'']"
  by (simp add: eval_defs demo_defs)

lemma broken_trace:
  "trace (snd (run defaultConfig broken_env Map.empty)) =
    [Written [''home'', ''u'', ''output.sick''] [],
     Stdout ''Traversing directory: /home/u'',
     Listed [''home'', ''u''],
     Visit [''home'', ''u'', ''a.js''] False,
     Read [''home'', ''u'', ''a.js''] None,
     Stderr ''Error processing file /home/u/a.js:'' (Some ReadFailed),
     Visit [''home'', ''u'', ''sub''] True,
     Listed [''home'', ''u'', ''sub''],
     Stderr ''Error traversing directory /home/u/sub:'' (Some ReaddirFailed),
     Visit [''home'', ''u'', ''b.js''] False,
     Read [''home'', ''u'', ''b.js''] (Some ''b''),
     AppendFailed [''home'', ''u'', ''output.sick''] (Processed [''home'', ''u'', ''b.js''] ''b''),
     Stderr ''Error processing file /home/u/b.js:'' (Some WriteFailed),
     Visit [''home'', ''u'', ''output.sick''] False,
     AppendFailed [''home'', ''u'', ''output.sick'']
       (Placeholder [''home'', ''u'', ''output.sick''] ''Skipped (non-matching extension)''),
     Stderr ''Error traversing directory /home/u:'' (Some WriteFailed),
     Stdout ''Done. All file contents written to: /home/u/output.sick'']"
  by (simp add: eval_defs demo_defs)

lemma elsewhere_trace:
  "trace (snd (run elsewhere_config elsewhere_env Map.empty)) =
    [Written [''home'', ''u'', ''output.sick''] [],
     Stdout ''Traversing directory: /srv/data'',
     Listed [''srv'', ''data''],
     Visit [''srv'', ''data'', ''a.js''] False,
     Read [''srv'', ''data'', ''a.js''] (Some ''x''),
     Appended [''home'', ''u'', ''output.sick'']
       (Processed [''srv'', ''data'', ''a.js''] ''x'')
       ''\<newline>\<newline>--- File: ../../srv/data/a.js ---\<newline>\<newline>x\<newline>'',
     Stdout ''Processed file: ../../srv/data/a.js'',
     Stdout ''Done. All file contents written to: /home/u/output.sick'']"
  by (simp add: eval_defs demo_defs)

lemma stale_trace:
  "trace (snd (run defaultConfig project_env stale_files)) =
     trace (snd (run defaultConfig project_env Map.empty))"
  by (simp add: eval_defs demo_defs stale_files_def)

lemma stale_file:
  "files (snd (run defaultConfig project_env stale_files)) [''home'', ''u'', ''output.sick''] =
     Some (''\<newline>\<newline>--- File: node_modules ---\<newline>(Excluded)\<newline>''
           @ ''\<newline>\<newline>--- File: README.md ---\<newline>(Skipped (non-matching extension))\<newline>''
           @ ''\<newline>\<newline>--- File: src/a.js ---\<newline>\<newline>let a = 1;\<newline>''
           @ ''\<newline>\<newline>--- File: output.sick ---\<newline>(Skipped (non-matching extension))\<newline>'')"
  by (simp add: eval_defs demo_defs stale_files_def)

lemma nope_run:
  "run nope_config project_env stale_files =
     (1, \<lparr>files = stale_files, attempts = 0,
          trace = [Stderr (''Error: Directory '' @ [CHR 0x22] @ ''/home/u/nope'' @ [CHR 0x22]
                            @ '' does not exist or is inaccessible.'') None]\<rparr>)"
  by (simp add: eval_defs demo_defs)


section \<open>The claims\<close>

text \<open>
  Claim C1, as the code has it. Let \<open>p\<close> be a path strictly below the scan root that
  \<^verbatim>\<open>isExcluded\<close> accepts. The run never lists \<open>p\<close> and never reads it; nothing below \<open>p\<close> is
  taken by the loop, listed or read; the only records about \<open>p\<close> or anything below it are
  \<^verbatim>\<open>(Excluded)\<close> placeholders for \<open>p\<close> itself, and those only when \<open>showExcluded\<close> is set.
  When the loop takes \<open>p\<close> and the append of the placeholder of \<open>p\<close> does not fail, that
  placeholder is in the output exactly when \<open>showExcluded\<close> is set, whatever else fails in
  the run. None of this depends on \<open>includeDirs\<close>. The scan root itself is never tested.
\<close>

theorem excluded_entry_never_processed:
  assumes "isExcluded cfg ev p"
    and "strict_prefix (path_resolve (cwd ev) (scanDir cfg)) p"
  shows "Listed p \<notin> set (trace (snd (run cfg ev fs)))
       \<and> (\<forall>c. Read p c \<notin> set (trace (snd (run cfg ev fs))))
       \<and> (\<forall>q. strict_prefix p q \<longrightarrow>
             q \<notin> set (visited (trace (snd (run cfg ev fs))))
             \<and> Listed q \<notin> set (trace (snd (run cfg ev fs)))
             \<and> (\<forall>c. Read q c \<notin> set (trace (snd (run cfg ev fs)))))
       \<and> (\<forall>r \<in> set (emitted (trace (snd (run cfg ev fs)))). prefix p (record_path r) \<longrightarrow>
             r = Placeholder p ''Excluded'' \<and> showExcluded cfg)
       \<and> (p \<in> set (visited (trace (snd (run cfg ev fs))))
            \<and> AppendFailed (path_join (cwd ev) (outputFile cfg)) (Placeholder p ''Excluded'')
                  \<notin> set (trace (snd (run cfg ev fs))) \<longrightarrow>
             (Placeholder p ''Excluded'' \<in> set (emitted (trace (snd (run cfg ev fs))))
                \<longleftrightarrow> showExcluded cfg))"
proof -
  let ?T = "set (trace (snd (run cfg ev fs)))"
  note ex = excluded_events [OF assms, where fs=fs]
  have a: "Listed p \<notin> ?T" using ex [of "Listed p" p] by auto
  have b: "Read p c \<notin> ?T" for c using ex [of "Read p c" p] by auto
  have c: "q \<notin> set (visited (trace (snd (run cfg ev fs)))) \<and> Listed q \<notin> ?T
             \<and> (\<forall>c. Read q c \<notin> ?T)"
    if "strict_prefix p q" for q
  proof -
    have "Visit q b \<notin> ?T" for b
      using that ex [of "Visit q b" q] by (auto simp: strict_prefix_def)
    moreover have "Listed q \<notin> ?T" "Read q c \<notin> ?T" for c
      using that ex [of "Listed q" q] ex [of "Read q c" q] by (auto simp: strict_prefix_def)
    ultimately show ?thesis by (auto simp: visited_iff)
  qed
  have d: "r = Placeholder p ''Excluded'' \<and> showExcluded cfg"
    if "r \<in> set (emitted (trace (snd (run cfg ev fs))))" and "prefix p (record_path r)" for r
  proof -
    from that(1) obtain out s where "Appended out r s \<in> ?T" by (auto simp: emitted_iff)
    from ex [OF this, of "record_path r"] that(2) show ?thesis by auto
  qed
  have e: "Placeholder p ''Excluded'' \<in> set (emitted (trace (snd (run cfg ev fs))))
             \<longleftrightarrow> showExcluded cfg"
    if "p \<in> set (visited (trace (snd (run cfg ev fs))))"
      and "AppendFailed (path_join (cwd ev) (outputFile cfg)) (Placeholder p ''Excluded'') \<notin> ?T"
  proof
    assume "Placeholder p ''Excluded'' \<in> set (emitted (trace (snd (run cfg ev fs))))"
    from d [OF this] show "showExcluded cfg" by simp
  next
    assume sh: "showExcluded cfg"
    from that(1) obtain b where "Visit p b \<in> ?T" by (auto simp: visited_iff)
    from excluded_shown [OF assms(1) this that(2) sh]
    show "Placeholder p ''Excluded'' \<in> set (emitted (trace (snd (run cfg ev fs))))" .
  qed
  show ?thesis using a b c d e by blast
qed

text \<open>
  In the example project the directory \<^verbatim>\<open>node_modules\<close> is excluded and taken by the loop.
  In the run where a later append fails (that of the placeholder of \<^verbatim>\<open>README.md\<close>), the
  append of its own placeholder does not fail: the placeholder is written, the directory is
  not listed, and nothing is recorded for the file in it.
\<close>

theorem excluded_entry_never_processed_witness:
  "isExcluded defaultConfig flaky_env [''home'', ''u'', ''node_modules'']
   \<and> strict_prefix (path_resolve (cwd flaky_env) (scanDir defaultConfig))
        [''home'', ''u'', ''node_modules'']
   \<and> [''home'', ''u'', ''node_modules'']
        \<in> set (visited (trace (snd (run defaultConfig flaky_env Map.empty))))
   \<and> AppendFailed (path_join (cwd flaky_env) (outputFile defaultConfig))
          (Placeholder [''home'', ''u'', ''node_modules''] ''Excluded'')
        \<notin> set (trace (snd (run defaultConfig flaky_env Map.empty)))
   \<and> \<not> write_ok flaky_env 2
   \<and> showExcluded defaultConfig
   \<and> Placeholder [''home'', ''u'', ''node_modules''] ''Excluded''
        \<in> set (emitted (trace (snd (run defaultConfig flaky_env Map.empty))))
   \<and> Listed [''home'', ''u'', ''node_modules'']
        \<notin> set (trace (snd (run defaultConfig flaky_env Map.empty)))
   \<and> [''home'', ''u'', ''node_modules'', ''lib.js'']
        \<notin> set (visited (trace (snd (run defaultConfig flaky_env Map.empty))))"
  using excluded_entry_never_processed
          [of defaultConfig flaky_env "[''home'', ''u'', ''node_modules'']" Map.empty]
  by (simp add: flaky_trace)
     (simp add: isExcluded_def relative_def basename_def path_resolve_def path_join_def
        norm_step_def demo_defs)

text \<open>
  Two excluded paths without a placeholder although \<open>showExcluded\<close> is set. The file
  \<^verbatim>\<open>node_modules/lib.js\<close> of the example project matches the pattern \<^verbatim>\<open>node_modules\<close>, but the
  loop never reaches it. The directory \<^verbatim>\<open>node_modules\<close> is taken by the loop in the run where
  the append of its placeholder fails, and the output has no record for it.
\<close>

theorem excluded_without_placeholder:
  "isExcluded defaultConfig project_env [''home'', ''u'', ''node_modules'', ''lib.js'']
   \<and> showExcluded defaultConfig
   \<and> Placeholder [''home'', ''u'', ''node_modules'', ''lib.js''] ''Excluded''
        \<notin> set (emitted (trace (snd (run defaultConfig project_env Map.empty))))
   \<and> isExcluded defaultConfig denied_env [''home'', ''u'', ''node_modules'']
   \<and> [''home'', ''u'', ''node_modules'']
        \<in> set (visited (trace (snd (run defaultConfig denied_env Map.empty))))
   \<and> Placeholder [''home'', ''u'', ''node_modules''] ''Excluded''
        \<notin> set (emitted (trace (snd (run defaultConfig denied_env Map.empty))))"
  by (simp add: project_trace denied_trace)
     (simp add: isExcluded_def relative_def basename_def demo_defs)

text \<open>
  Claim C2. \<^verbatim>\<open>isExcluded(p)\<close> is true exactly when some exclude pattern occurs in the path
  of \<open>p\<close> relative to the working directory as a contiguous piece of that string, or
  equals the last component of \<open>p\<close>. Both tests compare the characters as they are: no
  case folding, no wildcard.
\<close>

theorem isExcluded_iff:
  "isExcluded cfg ev p \<longleftrightarrow>
     (\<exists>pat \<in> set (excludePatterns cfg).
        (\<exists>pre suf. relative (cwd ev) p = pre @ pat @ suf) \<or> basename p = pat)"
  by (simp add: isExcluded_def list_ex_iff str_includes_iff)

text \<open>
  With the default patterns, \<^verbatim>\<open>src/dist-old/a.js\<close> is excluded because \<^verbatim>\<open>dist\<close> occurs in
  it, and \<^verbatim>\<open>Dist/Package.json\<close> is not: the capital letters match no pattern.
\<close>

theorem isExcluded_iff_witness:
  "isExcluded defaultConfig project_env [''home'', ''u'', ''src'', ''dist-old'', ''a.js'']
   \<and> relative (cwd project_env) [''home'', ''u'', ''src'', ''dist-old'', ''a.js'']
        = ''src/'' @ ''dist'' @ ''-old/a.js''
   \<and> ''dist'' \<in> set (excludePatterns defaultConfig)
   \<and> \<not> isExcluded defaultConfig project_env [''home'', ''u'', ''Dist'', ''Package.json'']"
  using isExcluded_iff [of defaultConfig project_env "[''home'', ''u'', ''src'', ''dist-old'', ''a.js'']"]
    isExcluded_iff [of defaultConfig project_env "[''home'', ''u'', ''Dist'', ''Package.json'']"]
  by (simp add: isExcluded_def relative_def basename_def demo_defs)

text \<open>
  Claim C3. The claim is that a directory is entered when \<open>includeDirs\<close> is empty or one of
  its members occurs in the path of the directory relative to the working directory. Line
  103 tests \<^verbatim>\<open>fullPath.includes(d)\<close> on the absolute path, whereas \<^verbatim>\<open>isExcluded\<close> and both
  writers take the path relative to the working directory. The tree with the directories
  \<^verbatim>\<open>src\<close> and \<^verbatim>\<open>lib\<close> is scanned with \<^verbatim>\<open>--include src\<close> from \<^verbatim>\<open>/home/src/proj\<close>: the relative
  path of \<^verbatim>\<open>lib\<close> is \<^verbatim>\<open>lib\<close>, which does not contain \<^verbatim>\<open>src\<close>, and yet \<^verbatim>\<open>lib\<close> is listed, its
  file \<^verbatim>\<open>y.js\<close> is processed and \<^verbatim>\<open>README.md\<close> gets a placeholder, because
  \<^verbatim>\<open>/home/src/proj/lib\<close> contains \<^verbatim>\<open>src\<close>. From \<^verbatim>\<open>/home/u\<close> the same scan leaves \<^verbatim>\<open>lib\<close> out.
\<close>

theorem include_matches_full_path:
  "Visit [''home'', ''src'', ''proj'', ''lib''] True
     \<in> set (trace (snd (run include_config nested_env Map.empty)))
   \<and> \<not> isExcluded include_config nested_env [''home'', ''src'', ''proj'', ''lib'']
   \<and> includeDirs include_config = [''src'']
   \<and> relative (cwd nested_env) [''home'', ''src'', ''proj'', ''lib''] = ''lib''
   \<and> \<not> str_includes (relative (cwd nested_env) [''home'', ''src'', ''proj'', ''lib'']) ''src''
   \<and> shouldRecurse include_config [''home'', ''src'', ''proj'', ''lib'']
   \<and> Listed [''home'', ''src'', ''proj'', ''lib'']
        \<in> set (trace (snd (run include_config nested_env Map.empty)))
   \<and> emitted (trace (snd (run include_config nested_env Map.empty))) =
        [Processed [''home'', ''src'', ''proj'', ''src'', ''x.js''] ''X'',
         Processed [''home'', ''src'', ''proj'', ''lib'', ''y.js''] ''Y'',
         Placeholder [''home'', ''src'', ''proj'', ''lib'', ''README.md'']
           ''Skipped (non-matching extension)'',
         Placeholder [''home'', ''src'', ''proj'', ''output.sick'']
           ''Skipped (non-matching extension)'']
   \<and> relative (cwd plain_env) [''home'', ''u'', ''lib''] = ''lib''
   \<and> \<not> shouldRecurse include_config [''home'', ''u'', ''lib'']
   \<and> emitted (trace (snd (run include_config plain_env Map.empty))) =
        [Processed [''home'', ''u'', ''src'', ''x.js''] ''X'',
         Placeholder [''home'', ''u'', ''output.sick''] ''Skipped (non-matching extension)'']"
  by (simp add: nested_trace plain_trace)
     (simp add: isExcluded_def shouldRecurse_def relative_def basename_def path_string_def
        demo_defs)

text \<open>
  Claim C4. The claim is that every failure on one entry is printed and the walk goes on
  with the remaining entries of the same directory. \<^verbatim>\<open>processFile\<close> does that for a
  failed read and a failed append. \<^verbatim>\<open>logSkippedFile\<close> has no \<^verbatim>\<open>try\<close>: when its append
  fails the exception leaves the loop and is caught by the \<^verbatim>\<open>catch\<close> of
  \<^verbatim>\<open>traverseDirectory\<close>, so the remaining entries of that directory are never taken. In
  the example project the placeholder of \<^verbatim>\<open>README.md\<close> is the third write; when only that
  write fails, \<^verbatim>\<open>src\<close> and \<^verbatim>\<open>output.sick\<close> are never taken, while in the run without a failure they are
  taken and the file of \<^verbatim>\<open>src\<close> is processed.
\<close>

theorem placeholder_append_failure_ends_loop:
  "visited (trace (snd (run defaultConfig flaky_env Map.empty))) =
     [[''home'', ''u'', ''node_modules''], [''home'', ''u'', ''README.md'']]
   \<and> Stderr ''Error traversing directory /home/u:'' (Some WriteFailed)
        \<in> set (trace (snd (run defaultConfig flaky_env Map.empty)))
   \<and> emitted (trace (snd (run defaultConfig flaky_env Map.empty))) =
        [Placeholder [''home'', ''u'', ''node_modules''] ''Excluded'']
   \<and> fst (run defaultConfig flaky_env Map.empty) = 0
   \<and> visited (trace (snd (run defaultConfig project_env Map.empty))) =
        [[''home'', ''u'', ''node_modules''], [''home'', ''u'', ''README.md''],
         [''home'', ''u'', ''src''], [''home'', ''u'', ''src'', ''a.js''],
         [''home'', ''u'', ''output.sick'']]
   \<and> Processed [''home'', ''u'', ''src'', ''a.js''] ''let a = 1;''
        \<in> set (emitted (trace (snd (run defaultConfig project_env Map.empty))))"
  by (simp add: flaky_trace project_trace)
     (simp add: eval_defs demo_defs)

text \<open>
  Claim C5. Every text appended to the output artifact is a record in one of the two
  formats, with the path printed relative to the working directory. A processed record is
  about a file the loop took, and its content is what \<^verbatim>\<open>fs.readFile\<close> returned for that
  file; a placeholder is about an entry the loop took, and its reason is \<^verbatim>\<open>Excluded\<close> or
  \<^verbatim>\<open>Skipped (non-matching extension)\<close>. Once the output file has been truncated, its content
  is the concatenation of the appended records, in order. And \<^verbatim>\<open>processFile\<close>, on a readable
  file \<open>q\<close> with content \<open>c\<close> that the run has not written, reads \<open>c\<close> and, when the append
  succeeds, appends the processed record of \<open>q\<close> with \<open>c\<close> to the output file.
\<close>

theorem record_formats:
  "(\<forall>out r s. Appended out r s \<in> set (trace (snd (run cfg ev fs))) \<longrightarrow>
       (\<exists>p content. r = Processed p content
          \<and> Visit p False \<in> set (trace (snd (run cfg ev fs)))
          \<and> Read p (Some content) \<in> set (trace (snd (run cfg ev fs)))
          \<and> s = ''\<newline>\<newline>--- File: '' @ relative (cwd ev) p @ '' ---\<newline>\<newline>'' @ content @ ''\<newline>'')
       \<or> (\<exists>p reasonText. r = Placeholder p reasonText
          \<and> p \<in> set (visited (trace (snd (run cfg ev fs))))
          \<and> (reasonText = ''Excluded'' \<or> reasonText = ''Skipped (non-matching extension)'')
          \<and> s = ''\<newline>\<newline>--- File: '' @ relative (cwd ev) p @ '' ---\<newline>('' @ reasonText @ '')\<newline>''))
   \<and> (Written (path_join (cwd ev) (outputFile cfg)) [] \<in> set (trace (snd (run cfg ev fs))) \<longrightarrow>
        files (snd (run cfg ev fs)) (path_join (cwd ev) (outputFile cfg)) =
          Some (concat (appended_to (path_join (cwd ev) (outputFile cfg)) (trace (snd (run cfg ev fs))))))
   \<and> (files st q = None \<and> write_ok ev (attempts st) \<longrightarrow>
        trace (processFile ev q outp (File (Some c)) st) =
          trace st @
          [Read q (Some c),
           Appended outp (Processed q c)
             (''\<newline>\<newline>--- File: '' @ relative (cwd ev) q @ '' ---\<newline>\<newline>'' @ c @ ''\<newline>''),
           Stdout (''Processed file: '' @ relative (cwd ev) q)]
        \<and> files (processFile ev q outp (File (Some c)) st) outp =
            Some ((case files st outp of None \<Rightarrow> [] | Some old \<Rightarrow> old)
                  @ ''\<newline>\<newline>--- File: '' @ relative (cwd ev) q @ '' ---\<newline>\<newline>'' @ c @ ''\<newline>''))"
proof (intro conjI allI impI)
  fix out r s
  assume a: "Appended out r s \<in> set (trace (snd (run cfg ev fs)))"
  from run_event [OF a] have ok: "s = record_text (cwd ev) r" "ok_record cfg ev r" by simp_all
  show "(\<exists>p content. r = Processed p content
          \<and> Visit p False \<in> set (trace (snd (run cfg ev fs)))
          \<and> Read p (Some content) \<in> set (trace (snd (run cfg ev fs)))
          \<and> s = ''\<newline>\<newline>--- File: '' @ relative (cwd ev) p @ '' ---\<newline>\<newline>'' @ content @ ''\<newline>'')
       \<or> (\<exists>p reasonText. r = Placeholder p reasonText
          \<and> p \<in> set (visited (trace (snd (run cfg ev fs))))
          \<and> (reasonText = ''Excluded'' \<or> reasonText = ''Skipped (non-matching extension)'')
          \<and> s = ''\<newline>\<newline>--- File: '' @ relative (cwd ev) p @ '' ---\<newline>('' @ reasonText @ '')\<newline>'')"
  proof (cases r)
    case (Processed p c)
    then show ?thesis using ok processed_provenance [of out p c s cfg ev fs] a by simp
  next
    case (Placeholder p reason)
    then show ?thesis using ok placeholder_provenance [of out p reason s cfg ev fs] a by auto
  qed
next
  let ?root = "path_resolve (cwd ev) (scanDir cfg)"
  let ?outp = "path_join (cwd ev) (outputFile cfg)"
  assume w: "Written ?outp [] \<in> set (trace (snd (run cfg ev fs)))"
  show "files (snd (run cfg ev fs)) ?outp = Some (concat (appended_to ?outp (trace (snd (run cfg ev fs)))))"
  proof (cases "lookup ev ?root")
    case None
    then show ?thesis using w by (simp add: run_inaccessible)
  next
    case (Some nd)
    show ?thesis
    proof (cases "write_ok ev 0")
      case False
      then show ?thesis using w Some by (simp add: run_unwritable)
    next
      case True
      from run_ok [OF Some True, where fs=fs] show ?thesis
        by (auto simp: appended_to_append)
    qed
  qed
next
  assume h: "files st q = None \<and> write_ok ev (attempts st)"
  then show "trace (processFile ev q outp (File (Some c)) st) =
          trace st @
          [Read q (Some c),
           Appended outp (Processed q c)
             (''\<newline>\<newline>--- File: '' @ relative (cwd ev) q @ '' ---\<newline>\<newline>'' @ c @ ''\<newline>''),
           Stdout (''Processed file: '' @ relative (cwd ev) q)]"
    by (simp add: processFile_def fs_readFile_def fs_appendFile_def emit_def console_log_def Let_def)
  from h show "files (processFile ev q outp (File (Some c)) st) outp =
            Some ((case files st outp of None \<Rightarrow> [] | Some old \<Rightarrow> old)
                  @ ''\<newline>\<newline>--- File: '' @ relative (cwd ev) q @ '' ---\<newline>\<newline>'' @ c @ ''\<newline>'')"
    by (simp add: processFile_def fs_readFile_def fs_appendFile_def emit_def console_log_def Let_def
          split: option.splits)
qed

text \<open>
  The record of \<^verbatim>\<open>src/a.js\<close> in the example project carries the content of that file, which
  was read after the loop took the file; the output file holds the four records of the
  run. \<^verbatim>\<open>processFile\<close> on that file alone appends the same record.
\<close>

theorem record_formats_witness:
  "Appended [''home'', ''u'', ''output.sick'']
       (Processed [''home'', ''u'', ''src'', ''a.js''] ''let a = 1;'')
       ''\<newline>\<newline>--- File: src/a.js ---\<newline>\<newline>let a = 1;\<newline>''
     \<in> set (trace (snd (run defaultConfig project_env Map.empty)))
   \<and> Visit [''home'', ''u'', ''src'', ''a.js''] False
     \<in> set (trace (snd (run defaultConfig project_env Map.empty)))
   \<and> Read [''home'', ''u'', ''src'', ''a.js''] (Some ''let a = 1;'')
     \<in> set (trace (snd (run defaultConfig project_env Map.empty)))
   \<and> relative (cwd project_env) [''home'', ''u'', ''src'', ''a.js''] = ''src/a.js''
   \<and> Written (path_join (cwd project_env) (outputFile defaultConfig)) []
        \<in> set (trace (snd (run defaultConfig project_env Map.empty)))
   \<and> files (snd (run defaultConfig project_env Map.empty))
        (path_join (cwd project_env) (outputFile defaultConfig)) =
      Some (''\<newline>\<newline>--- File: node_modules ---\<newline>(Excluded)\<newline>''
            @ ''\<newline>\<newline>--- File: README.md ---\<newline>(Skipped (non-matching extension))\<newline>''
            @ ''\<newline>\<newline>--- File: src/a.js ---\<newline>\<newline>let a = 1;\<newline>''
            @ ''\<newline>\<newline>--- File: output.sick ---\<newline>(Skipped (non-matching extension))\<newline>'')
   \<and> files (init_state Map.empty) [''home'', ''u'', ''src'', ''a.js''] = None
   \<and> write_ok project_env (attempts (init_state Map.empty))
   \<and> trace (processFile project_env [''home'', ''u'', ''src'', ''a.js'']
              [''home'', ''u'', ''output.sick''] (File (Some ''let a = 1;'')) (init_state Map.empty)) =
       [Read [''home'', ''u'', ''src'', ''a.js''] (Some ''let a = 1;''),
        Appended [''home'', ''u'', ''output.sick'']
          (Processed [''home'', ''u'', ''src'', ''a.js''] ''let a = 1;'')
          ''\<newline>\<newline>--- File: src/a.js ---\<newline>\<newline>let a = 1;\<newline>'',
        Stdout ''Processed file: src/a.js'']
   \<and> files (processFile project_env [''home'', ''u'', ''src'', ''a.js'']
              [''home'', ''u'', ''output.sick''] (File (Some ''let a = 1;'')) (init_state Map.empty))
        [''home'', ''u'', ''output.sick''] =
       Some ''\<newline>\<newline>--- File: src/a.js ---\<newline>\<newline>let a = 1;\<newline>''"
  using record_formats [where cfg=defaultConfig and ev=project_env and fs=Map.empty
          and q="[''home'', ''u'', ''src'', ''a.js'']" and c="''let a = 1;''"
          and st="init_state Map.empty" and outp="[''home'', ''u'', ''output.sick'']"]
  by (simp add: project_trace)
     (simp add: relative_def path_join_def norm_step_def init_state_def demo_defs)

text \<open>
  Claim C6, as the code has it. Let the loop take a file \<open>p\<close> that is not excluded and
  whose extension, as \<^verbatim>\<open>path.extname\<close> gives it with its dot, is not equal to any member
  of \<open>includeExtensions\<close>. The file is never read; the only record about it is the
  \<^verbatim>\<open>(Skipped (non-matching extension))\<close> placeholder, and only when \<open>showSkipped\<close> is set;
  when the append of that placeholder does not fail, the placeholder is in the output
  exactly when \<open>showSkipped\<close> is set, whatever else fails in the run.
\<close>

theorem unmatched_extension_rule:
  assumes "Visit p False \<in> set (trace (snd (run cfg ev fs)))"
    and "\<not> isExcluded cfg ev p"
    and "extname (last p) \<notin> set (includeExtensions cfg)"
  shows "(\<forall>c. Read p c \<notin> set (trace (snd (run cfg ev fs))))
       \<and> (\<forall>r \<in> set (emitted (trace (snd (run cfg ev fs)))). record_path r = p \<longrightarrow>
             showSkipped cfg \<and> r = Placeholder p ''Skipped (non-matching extension)'')
       \<and> (AppendFailed (path_join (cwd ev) (outputFile cfg))
              (Placeholder p ''Skipped (non-matching extension)'')
              \<notin> set (trace (snd (run cfg ev fs))) \<longrightarrow>
            (Placeholder p ''Skipped (non-matching extension)''
                \<in> set (emitted (trace (snd (run cfg ev fs))))
             \<longleftrightarrow> showSkipped cfg))"
proof (intro conjI ballI impI allI)
  fix c
  show "Read p c \<notin> set (trace (snd (run cfg ev fs)))"
  proof
    assume "Read p c \<in> set (trace (snd (run cfg ev fs)))"
    from run_event [OF this] assms(3) show False by simp
  qed
next
  show "showSkipped cfg" "r = Placeholder p ''Skipped (non-matching extension)''"
    if "r \<in> set (emitted (trace (snd (run cfg ev fs))))" and "record_path r = p" for r
    using unmatched_record [OF assms(2,3) that] by simp_all
  assume w: "AppendFailed (path_join (cwd ev) (outputFile cfg))
              (Placeholder p ''Skipped (non-matching extension)'')
              \<notin> set (trace (snd (run cfg ev fs)))"
  show "Placeholder p ''Skipped (non-matching extension)''
            \<in> set (emitted (trace (snd (run cfg ev fs))))
          \<longleftrightarrow> showSkipped cfg"
    using unmatched_record [OF assms(2,3), of "Placeholder p ''Skipped (non-matching extension)''" fs]
      unmatched_shown [OF assms w]
    by auto
qed

text \<open>
  In the example project \<^verbatim>\<open>README.md\<close> is such a file. In the run where a later append fails
  (that of the record of \<^verbatim>\<open>src/a.js\<close>), the append of its own placeholder does not fail: it
  gets its placeholder and is not read.
\<close>

theorem unmatched_extension_rule_witness:
  "Visit [''home'', ''u'', ''README.md''] False
     \<in> set (trace (snd (run defaultConfig late_env Map.empty)))
   \<and> \<not> isExcluded defaultConfig late_env [''home'', ''u'', ''README.md'']
   \<and> extname (last [''home'', ''u'', ''README.md'']) = ''.md''
   \<and> ''.md'' \<notin> set (includeExtensions defaultConfig)
   \<and> AppendFailed (path_join (cwd late_env) (outputFile defaultConfig))
          (Placeholder [''home'', ''u'', ''README.md''] ''Skipped (non-matching extension)'')
        \<notin> set (trace (snd (run defaultConfig late_env Map.empty)))
   \<and> \<not> write_ok late_env 3
   \<and> showSkipped defaultConfig
   \<and> Placeholder [''home'', ''u'', ''README.md''] ''Skipped (non-matching extension)''
        \<in> set (emitted (trace (snd (run defaultConfig late_env Map.empty))))
   \<and> Read [''home'', ''u'', ''README.md''] None
        \<notin> set (trace (snd (run defaultConfig late_env Map.empty)))
   \<and> Read [''home'', ''u'', ''README.md''] (Some ''hi'')
        \<notin> set (trace (snd (run defaultConfig late_env Map.empty)))"
  using unmatched_extension_rule [of "[''home'', ''u'', ''README.md'']" defaultConfig late_env Map.empty]
  by (simp add: late_trace)
     (simp add: isExcluded_def relative_def basename_def extname_def path_join_def norm_step_def
        demo_defs)

text \<open>
  Two such files without a placeholder although \<open>showSkipped\<close> is set. With
  \<^verbatim>\<open>--include src\<close> in \<^verbatim>\<open>/home/u\<close> the file \<^verbatim>\<open>lib/README.md\<close> is not excluded and its
  extension is not included, but its directory is not listed. The file \<^verbatim>\<open>README.md\<close> of the
  example project is taken by the loop in the run where the append of its placeholder
  fails, and the output has no record for it.
\<close>

theorem unmatched_without_placeholder:
  "\<not> isExcluded include_config plain_env [''home'', ''u'', ''lib'', ''README.md'']
   \<and> extname (last [''home'', ''u'', ''lib'', ''README.md'']) \<notin> set (includeExtensions include_config)
   \<and> showSkipped include_config
   \<and> Placeholder [''home'', ''u'', ''lib'', ''README.md''] ''Skipped (non-matching extension)''
        \<notin> set (emitted (trace (snd (run include_config plain_env Map.empty))))
   \<and> Visit [''home'', ''u'', ''README.md''] False
        \<in> set (trace (snd (run defaultConfig flaky_env Map.empty)))
   \<and> \<not> isExcluded defaultConfig flaky_env [''home'', ''u'', ''README.md'']
   \<and> extname (last [''home'', ''u'', ''README.md'']) \<notin> set (includeExtensions defaultConfig)
   \<and> showSkipped defaultConfig
   \<and> Placeholder [''home'', ''u'', ''README.md''] ''Skipped (non-matching extension)''
        \<notin> set (emitted (trace (snd (run defaultConfig flaky_env Map.empty))))"
  by (simp add: plain_trace flaky_trace)
     (simp add: isExcluded_def relative_def basename_def extname_def demo_defs)

text \<open>
  Claim C7. When nothing is accessible at the resolved scan root, the process ends with
  status 1; the only thing it does is print the error: no file is written or created (an
  output file left by an earlier run stays as it was), no write is attempted, and nothing
  is listed or read.
\<close>

theorem inaccessible_root_aborts:
  assumes "lookup ev (path_resolve (cwd ev) (scanDir cfg)) = None"
  shows "fst (run cfg ev fs) = 1
       \<and> files (snd (run cfg ev fs)) = fs
       \<and> attempts (snd (run cfg ev fs)) = 0
       \<and> trace (snd (run cfg ev fs)) =
           [Stderr (''Error: Directory '' @ [CHR 0x22]
                     @ path_string (path_resolve (cwd ev) (scanDir cfg)) @ [CHR 0x22]
                     @ '' does not exist or is inaccessible.'') None]"
  using assms by (simp add: run_inaccessible)

text \<open>
  The example project scanned with \<^verbatim>\<open>--scan nope\<close> on top of a stale output file: status 1,
  nothing is written, listed or read, and the stale file stays as it was.
\<close>

theorem inaccessible_root_aborts_witness:
  "lookup project_env (path_resolve (cwd project_env) (scanDir nope_config)) = None
   \<and> path_resolve (cwd project_env) (scanDir nope_config) = [''home'', ''u'', ''nope'']
   \<and> fst (run nope_config project_env stale_files) = 1
   \<and> files (snd (run nope_config project_env stale_files)) = stale_files
   \<and> attempts (snd (run nope_config project_env stale_files)) = 0
   \<and> visited (trace (snd (run nope_config project_env stale_files))) = []"
  using inaccessible_root_aborts [of project_env nope_config stale_files]
  by (simp add: path_resolve_def norm_step_def demo_defs)

text \<open>
  Claim C8. The exit status depends on the accessibility of the scan root only: it is 0
  whenever the root is accessible, whatever fails while the tree is walked.
\<close>

theorem exit_status_ignores_entry_errors:
  "fst (run cfg ev fs) = (if lookup ev (path_resolve (cwd ev) (scanDir cfg)) = None then 1 else 0)"
proof (cases "lookup ev (path_resolve (cwd ev) (scanDir cfg))")
  case None
  then show ?thesis by (simp add: run_inaccessible)
next
  case (Some nd)
  show ?thesis
  proof (cases "write_ok ev 0")
    case False
    then show ?thesis using Some by (simp add: run_unwritable)
  next
    case True
    from run_ok [OF Some True, where fs=fs] show ?thesis using Some by auto
  qed
qed

text \<open>
  A run over an unreadable file and an unlistable directory, in which every append fails:
  the errors are printed and the status is 0.
\<close>

theorem exit_status_ignores_entry_errors_witness:
  "Stderr ''Error processing file /home/u/a.js:'' (Some ReadFailed)
     \<in> set (trace (snd (run defaultConfig broken_env Map.empty)))
   \<and> Stderr ''Error traversing directory /home/u/sub:'' (Some ReaddirFailed)
     \<in> set (trace (snd (run defaultConfig broken_env Map.empty)))
   \<and> Stderr ''Error processing file /home/u/b.js:'' (Some WriteFailed)
     \<in> set (trace (snd (run defaultConfig broken_env Map.empty)))
   \<and> Stderr ''Error traversing directory /home/u:'' (Some WriteFailed)
     \<in> set (trace (snd (run defaultConfig broken_env Map.empty)))
   \<and> fst (run defaultConfig broken_env Map.empty) = 0"
  using exit_status_ignores_entry_errors [of defaultConfig broken_env Map.empty]
  by (simp add: broken_trace)
     (simp add: path_resolve_def norm_step_def demo_defs)

text \<open>
  Claim C9, as the code has it. A run whose scan root is accessible and whose truncating
  write succeeds writes the output file exactly once with the empty text, before anything
  else, and after that only appends to it. Any other run (the root is missing, or the
  truncating write fails) does not write at all: it neither truncates nor appends. In both
  cases a second run in the same environment, started on the files the first run left,
  leaves every file with the same content: nothing of the earlier output survives next to
  new records.
\<close>

theorem truncation_then_appends:
  "(if lookup ev (path_resolve (cwd ev) (scanDir cfg)) \<noteq> None \<and> write_ok ev 0
    then \<exists>ws. filter is_write (trace (snd (run cfg ev fs))) =
                Written (path_join (cwd ev) (outputFile cfg)) [] # ws
              \<and> (\<forall>w \<in> set ws. \<exists>r s. w = Appended (path_join (cwd ev) (outputFile cfg)) r s)
    else filter is_write (trace (snd (run cfg ev fs))) = [])
   \<and> files (snd (run cfg ev (files (snd (run cfg ev fs))))) = files (snd (run cfg ev fs))"
  using run_writes [of ev cfg fs] run_twice [of cfg ev fs] by simp

text \<open>
  The example project run on top of a stale output file: one truncation, four appends,
  and the stale text is gone; the second run leaves the same file.
\<close>

theorem truncation_then_appends_witness:
  "lookup project_env (path_resolve (cwd project_env) (scanDir defaultConfig)) = Some project_tree
   \<and> write_ok project_env 0
   \<and> filter is_write (trace (snd (run defaultConfig project_env stale_files))) =
       [Written [''home'', ''u'', ''output.sick''] [],
        Appended [''home'', ''u'', ''output.sick'']
          (Placeholder [''home'', ''u'', ''node_modules''] ''Excluded'')
          ''\<newline>\<newline>--- File: node_modules ---\<newline>(Excluded)\<newline>'',
        Appended [''home'', ''u'', ''output.sick'']
          (Placeholder [''home'', ''u'', ''README.md''] ''Skipped (non-matching extension)'')
          ''\<newline>\<newline>--- File: README.md ---\<newline>(Skipped (non-matching extension))\<newline>'',
        Appended [''home'', ''u'', ''output.sick'']
          (Processed [''home'', ''u'', ''src'', ''a.js''] ''let a = 1;'')
          ''\<newline>\<newline>--- File: src/a.js ---\<newline>\<newline>let a = 1;\<newline>'',
        Appended [''home'', ''u'', ''output.sick'']
          (Placeholder [''home'', ''u'', ''output.sick''] ''Skipped (non-matching extension)'')
          ''\<newline>\<newline>--- File: output.sick ---\<newline>(Skipped (non-matching extension))\<newline>'']
   \<and> files (snd (run defaultConfig project_env stale_files))
        [''home'', ''u'', ''output.sick''] =
      Some (''\<newline>\<newline>--- File: node_modules ---\<newline>(Excluded)\<newline>''
            @ ''\<newline>\<newline>--- File: README.md ---\<newline>(Skipped (non-matching extension))\<newline>''
            @ ''\<newline>\<newline>--- File: src/a.js ---\<newline>\<newline>let a = 1;\<newline>''
            @ ''\<newline>\<newline>--- File: output.sick ---\<newline>(Skipped (non-matching extension))\<newline>'')
   \<and> files (snd (run defaultConfig project_env
                     (files (snd (run defaultConfig project_env stale_files)))))
      = files (snd (run defaultConfig project_env stale_files))"
  using truncation_then_appends [of project_env defaultConfig stale_files]
  by (simp add: stale_trace stale_file project_trace is_write_def)
     (simp add: path_resolve_def norm_step_def demo_defs)

text \<open>
  The example project scanned with \<^verbatim>\<open>--scan nope\<close> on top of a stale output file: the
  directory \<^verbatim>\<open>/home/u/nope\<close> does not exist, the run ends with status 1 and writes nothing,
  so the output file is not truncated in that run and keeps the stale text.
\<close>

theorem aborted_run_never_truncates:
  "path_resolve (cwd project_env) (scanDir nope_config) = [''home'', ''u'', ''nope'']
   \<and> lookup project_env [''home'', ''u''] = Some project_tree
   \<and> lookup project_env [''home'', ''u'', ''nope''] = None
   \<and> fst (run nope_config project_env stale_files) = 1
   \<and> filter is_write (trace (snd (run nope_config project_env stale_files))) = []
   \<and> files (snd (run nope_config project_env stale_files))
        [''home'', ''u'', ''output.sick''] = Some ''stale''"
  by (simp add: nope_run is_write_def)
     (simp add: stale_files_def path_resolve_def norm_step_def demo_defs)

text \<open>
  Claim C10. Whatever the scan directory \<open>s\<close> is, every write of a run goes to the
  configured output name joined onto the working directory of the process, no other file
  changes, and a run that gets as far as truncating creates that file. For a plain file
  name the path is that name inside the working directory.
\<close>

theorem output_path_from_cwd:
  "(\<forall>e \<in> set (trace (snd (run (cfg\<lparr>scanDir := s\<rparr>) ev fs))). \<forall>p. write_target e = Some p \<longrightarrow>
       p = path_join (cwd ev) (outputFile cfg))
   \<and> (\<forall>p. p \<noteq> path_join (cwd ev) (outputFile cfg) \<longrightarrow>
         files (snd (run (cfg\<lparr>scanDir := s\<rparr>) ev fs)) p = fs p)
   \<and> (lookup ev (path_resolve (cwd ev) s) \<noteq> None \<and> write_ok ev 0 \<longrightarrow>
         files (snd (run (cfg\<lparr>scanDir := s\<rparr>) ev fs)) (path_join (cwd ev) (outputFile cfg)) \<noteq> None)
   \<and> (outputFile cfg \<noteq> [] \<and> outputFile cfg \<noteq> ''.'' \<and> outputFile cfg \<noteq> ''..''
        \<and> CHR ''/'' \<notin> set (outputFile cfg) \<longrightarrow>
         path_join (cwd ev) (outputFile cfg) = cwd ev @ [outputFile cfg])"
proof (intro conjI ballI allI impI)
  let ?cfg = "cfg\<lparr>scanDir := s\<rparr>"
  fix e p
  assume e: "e \<in> set (trace (snd (run ?cfg ev fs)))" and w: "write_target e = Some p"
  from run_event [OF e] w show "p = path_join (cwd ev) (outputFile cfg)"
    by (cases e) auto
next
  fix p assume "p \<noteq> path_join (cwd ev) (outputFile cfg)"
  then show "files (snd (run (cfg\<lparr>scanDir := s\<rparr>) ev fs)) p = fs p"
    using run_only_outp [of p ev "cfg\<lparr>scanDir := s\<rparr>" fs] by simp
next
  assume "lookup ev (path_resolve (cwd ev) s) \<noteq> None \<and> write_ok ev 0"
  then show "files (snd (run (cfg\<lparr>scanDir := s\<rparr>) ev fs)) (path_join (cwd ev) (outputFile cfg)) \<noteq> None"
    using run_created [of ev "cfg\<lparr>scanDir := s\<rparr>" fs] by simp
next
  assume "outputFile cfg \<noteq> [] \<and> outputFile cfg \<noteq> ''.'' \<and> outputFile cfg \<noteq> ''..''
        \<and> CHR ''/'' \<notin> set (outputFile cfg)"
  then show "path_join (cwd ev) (outputFile cfg) = cwd ev @ [outputFile cfg]"
    by (simp add: path_join_plain)
qed

text \<open>
  A scan of \<^verbatim>\<open>/srv/data\<close> started in \<^verbatim>\<open>/home/u\<close> writes \<^verbatim>\<open>/home/u/output.sick\<close> and nothing
  under \<^verbatim>\<open>/srv/data\<close>.
\<close>

theorem output_path_from_cwd_witness:
  "Appended [''home'', ''u'', ''output.sick''] (Processed [''srv'', ''data'', ''a.js''] ''x'')
       ''\<newline>\<newline>--- File: ../../srv/data/a.js ---\<newline>\<newline>x\<newline>''
     \<in> set (trace (snd (run (defaultConfig\<lparr>scanDir := ''/srv/data''\<rparr>) elsewhere_env Map.empty)))
   \<and> path_join (cwd elsewhere_env) (outputFile defaultConfig) = [''home'', ''u'', ''output.sick'']
   \<and> cwd elsewhere_env @ [outputFile defaultConfig] = [''home'', ''u'', ''output.sick'']
   \<and> path_resolve (cwd elsewhere_env) ''/srv/data'' = [''srv'', ''data'']
   \<and> lookup elsewhere_env [''srv'', ''data''] \<noteq> None
   \<and> write_ok elsewhere_env 0
   \<and> files (snd (run (defaultConfig\<lparr>scanDir := ''/srv/data''\<rparr>) elsewhere_env Map.empty))
        [''home'', ''u'', ''output.sick''] \<noteq> None
   \<and> files (snd (run (defaultConfig\<lparr>scanDir := ''/srv/data''\<rparr>) elsewhere_env Map.empty))
        [''srv'', ''data'', ''output.sick''] = None"
  using output_path_from_cwd [where cfg=defaultConfig and s="''/srv/data''" and ev=elsewhere_env and fs=Map.empty]
    elsewhere_trace
  by (simp add: elsewhere_config_def)
     (simp add: path_join_def path_resolve_def norm_step_def demo_defs)

end
